theory Spec2Isabelle
  imports Complex_Main "HOL-Library.Multiset" "HOL-Library.Code_Target_Numeral"
begin

section \<open>The record store of server.js\<close>

text \<open>
  The four mongoose collections of \<^verbatim>\<open>server.js\<close> (User, Transaction, Game, Ticket) and
  the route handlers that touch a user's balance. An ObjectId is a natural number; a
  date is a number of milliseconds. A collection that is only appended to is a list in
  insertion order, and the position of a document in that list stands for its
  \<^verbatim>\<open>_id\<close>. Of a user document only the balance is read or written by these handlers;
  name, email, password and phone are left out.

  A JavaScript number is an IEEE 754 double. The numbers of this model are the doubles
  with an integer value, kept as that integer: the fields of a request body are JSON
  integers, not fractions and not strings. Sums, differences and products are rounded as
  double arithmetic rounds them, see \<open>fl\<close> below.
\<close>

type_synonym oid = nat

record user =
  balance :: int

datatype tx_type = Deposit | Withdrawal | GamePurchase | PrizeWon

datatype tx_status = Pending | Completed | Failed

record transaction =
  tx_userId :: oid
  tx_type :: tx_type
  tx_status :: tx_status
  tx_amount :: int
  transactionId :: string
  tx_description :: string
  tx_createdAt :: int

datatype game_type = Wheel | Draw

record prize =
  p_position :: int
  p_amount :: int

record game =
  g_name :: string
  g_type :: game_type
  price :: int
  prizePool :: int
  durationDays :: int
  spinsPerDay :: int
  prizes :: "prize list"
  g_active :: bool

datatype ticket_status = TicketActive | TicketWon | TicketLost

record ticket =
  tk_userId :: oid
  tk_gameId :: oid
  ticketCode :: string
  purchaseDate :: int
  drawDate :: int
  tk_status :: ticket_status
  prizeWon :: int

text \<open>
  The callback that \<^verbatim>\<open>POST /api/withdraw\<close> hands to \<^verbatim>\<open>setTimeout\<close> closes over the
  \<^verbatim>\<open>user\<close> document as it was read by the request, the \<^verbatim>\<open>transaction\<close> document,
  \<^verbatim>\<open>amount\<close> and \<^verbatim>\<open>phone\<close>. A scheduled callback is kept as that closure.
\<close>

record settlement_closure =
  st_userId :: oid
  st_user :: user
  st_tx :: nat
  st_amount :: int
  st_phone :: string

record state =
  users :: "oid \<rightharpoonup> user"
  games :: "oid \<rightharpoonup> game"
  transactions :: "transaction list"
  tickets :: "ticket list"
  timers :: "settlement_closure list"

text \<open>
  The responses of the handlers that end a request early or in the \<^verbatim>\<open>catch\<close> block:
  401 \<^verbatim>\<open>Authentication required\<close>, 404 \<^verbatim>\<open>User not found\<close>, 404 \<^verbatim>\<open>Game not found\<close>,
  400 \<^verbatim>\<open>Insufficient balance\<close> and 500 \<^verbatim>\<open>Internal server error\<close>.
\<close>

datatype error =
  AuthenticationRequired | UserNotFound | GameNotFound | InsufficientBalance | InternalServerError

section \<open>Double arithmetic on integers\<close>

text \<open>
  The sum, difference or product of two doubles is the double nearest to the exact
  result, ties going to the even significand. For an integer that is the integer itself
  when it has at most 53 significant bits, and otherwise the nearest integer with 53
  significant bits. \<open>bits n\<close> is the length of \<open>n\<close> in binary. From \<open>2 ^ 1024\<close> on a double
  is \<^verbatim>\<open>Infinity\<close>; this model has no such value, and \<open>exact\<close> says of an integer that it is
  a finite double as it stands.
\<close>

function bits :: "nat \<Rightarrow> nat" where
  "bits n = (if n = 0 then 0 else Suc (bits (n div 2)))"
  by pat_completeness auto
termination
  by (relation "measure id") auto

declare bits.simps [simp del]

definition round53 :: "nat \<Rightarrow> nat" where
  "round53 n =
     (if n < 2 ^ 53 then n
      else
        let e = bits n - 53;
            q = n div 2 ^ e;
            r = n mod 2 ^ e;
            half = 2 ^ (e - 1)
        in (if half < r \<or> (r = half \<and> odd q) then q + 1 else q) * 2 ^ e)"

definition fl :: "int \<Rightarrow> int" where
  "fl x = (if x < 0 then - int (round53 (nat (- x))) else int (round53 (nat x)))"

definition exact :: "int \<Rightarrow> bool" where
  "exact x \<longleftrightarrow> fl x = x \<and> \<bar>x\<bar> < 2 ^ 1024"

section \<open>Saving documents\<close>

text \<open>
  \<^verbatim>\<open>transactionId\<close> and \<^verbatim>\<open>ticketCode\<close> are declared \<^verbatim>\<open>required: true\<close> and
  \<^verbatim>\<open>unique: true\<close>: \<^verbatim>\<open>save()\<close> of a new document throws when the string is empty
  (mongoose's validator) and when the key is already in the collection (the store's
  unique index). \<open>None\<close> is that exception. A ticket code always starts with \<^verbatim>\<open>T\<close>.
\<close>

definition save_transaction :: "transaction list \<Rightarrow> transaction \<Rightarrow> transaction list option" where
  "save_transaction coll t =
     (if transactionId t = [] \<or> transactionId t \<in> set (map transactionId coll) then None
      else Some (coll @ [t]))"

definition save_ticket :: "ticket list \<Rightarrow> ticket \<Rightarrow> ticket list option" where
  "save_ticket store t =
     (if ticketCode t = [] \<or> ticketCode t \<in> set (map ticketCode store) then None
      else Some (store @ [t]))"

section \<open>Numbers in template strings\<close>

text \<open>
  The text that a template literal gives for an integer of magnitude below \<open>10 ^ 21\<close>:
  its decimal digits, with a minus sign when negative. From \<open>10 ^ 21\<close> on JavaScript
  prints an exponent form, which \<open>show_int\<close> does not model.
\<close>

definition digit :: "nat \<Rightarrow> char" where
  "digit n = ''0123456789'' ! (n mod 10)"

function show_nat :: "nat \<Rightarrow> string" where
  "show_nat n = (if n < 10 then [digit n] else show_nat (n div 10) @ [digit n])"
  by pat_completeness auto
termination
  by (relation "measure id") auto

declare show_nat.simps [simp del]

definition show_int :: "int \<Rightarrow> string" where
  "show_int i = (if i < 0 then CHR ''-'' # show_nat (nat (- i)) else show_nat (nat i))"





section \<open>GET /api/transactions\<close>

definition get_transactions :: "state \<Rightarrow> oid option \<Rightarrow> (error + transaction list) \<times> state" where
  "get_transactions s session =
     (case session of
        None \<Rightarrow> (Inl AuthenticationRequired, s)
      | Some uid \<Rightarrow>
          (Inr (take 50 (sort_key (\<lambda>t. - tx_createdAt t)
                  (filter (\<lambda>t. tx_userId t = uid) (transactions s)))), s))"

section \<open>POST /api/deposit\<close>

definition post_deposit ::
  "state \<Rightarrow> oid option \<Rightarrow> int \<Rightarrow> string \<Rightarrow> int \<Rightarrow> (error + int) \<times> state" where
  "post_deposit s session amount tid now =
     (case session of
        None \<Rightarrow> (Inl AuthenticationRequired, s)
      | Some uid \<Rightarrow>
          (case users s uid of
             None \<Rightarrow> (Inl UserNotFound, s)
           | Some usr \<Rightarrow>
               let usr' = usr\<lparr>balance := fl (balance usr + amount)\<rparr>;
                   s1 = s\<lparr>users := (users s)(uid \<mapsto> usr')\<rparr>;
                   t = \<lparr>tx_userId = uid, tx_type = Deposit, tx_status = Completed,
                        tx_amount = amount, transactionId = tid,
                        tx_description = ''Deposit via Pesapal'', tx_createdAt = now\<rparr>
               in (case save_transaction (transactions s1) t of
                     None \<Rightarrow> (Inl InternalServerError, s1)
                   | Some coll \<Rightarrow> (Inr (balance usr'), s1\<lparr>transactions := coll\<rparr>))))"

section \<open>POST /api/withdraw and its deferred callback\<close>

definition post_withdraw ::
  "state \<Rightarrow> oid option \<Rightarrow> int \<Rightarrow> string \<Rightarrow> string \<Rightarrow> int \<Rightarrow> (error + string) \<times> state" where
  "post_withdraw s session amount phone rnd now =
     (case session of
        None \<Rightarrow> (Inl AuthenticationRequired, s)
      | Some uid \<Rightarrow>
          (case users s uid of
             None \<Rightarrow> (Inl UserNotFound, s)
           | Some usr \<Rightarrow>
               if balance usr < amount then (Inl InsufficientBalance, s)
               else
                 let t = \<lparr>tx_userId = uid, tx_type = Withdrawal, tx_status = Pending,
                          tx_amount = amount, transactionId = ''wd_'' @ rnd,
                          tx_description = ''Withdrawal to '' @ phone, tx_createdAt = now\<rparr>
                 in (case save_transaction (transactions s) t of
                       None \<Rightarrow> (Inl InternalServerError, s)
                     | Some coll \<Rightarrow>
                         (Inr (transactionId t),
                          s\<lparr>transactions := coll,
                            timers := timers s @
                              [\<lparr>st_userId = uid, st_user = usr,
                                st_tx = length (transactions s),
                                st_amount = amount, st_phone = phone\<rparr>]\<rparr>))))"

text \<open>
  The callback of the \<open>k\<close>-th scheduled timer. It sets the status of its transaction
  document and saves it, then subtracts the amount from the balance field of the user
  document it closed over and saves that document. A mongoose \<^verbatim>\<open>save()\<close> of a document
  read earlier sends the fields whose value was changed: the store receives the balance
  of the closed-over document minus the amount, and receives nothing when that
  difference is the balance of the closed-over document again. A save of a document that
  is not in the store throws; the callback catches and logs it. All timers have the same
  delay and fire in the order they were set, which is \<open>k = 0\<close>; the function is defined
  for every \<open>k\<close>.
\<close>

definition settlement :: "state \<Rightarrow> nat \<Rightarrow> state" where
  "settlement s k =
     (if k < length (timers s) then
        let c = timers s ! k;
            s0 = s\<lparr>timers := take k (timers s) @ drop (Suc k) (timers s)\<rparr>
        in if st_tx c < length (transactions s) then
             let s1 = s0\<lparr>transactions :=
                          (transactions s)[st_tx c :=
                             (transactions s ! st_tx c)\<lparr>tx_status := Completed\<rparr>]\<rparr>;
                 new_balance = fl (balance (st_user c) - st_amount c)
             in (case users s (st_userId c) of
                   None \<Rightarrow> s1
                 | Some stored \<Rightarrow>
                     if new_balance = balance (st_user c) then s1
                     else s1\<lparr>users := (users s)(st_userId c \<mapsto>
                                stored\<lparr>balance := new_balance\<rparr>)\<rparr>)
           else s0
      else s)"

section \<open>POST /api/tickets/purchase\<close>

text \<open>
  The loop \<^verbatim>\<open>for (let i = 0; i < quantity; i++)\<close>; \<open>codes i\<close> is the upper-cased random
  suffix drawn in iteration \<open>i\<close>. \<open>dd\<close> is the draw date that \<^verbatim>\<open>new Date()\<close> and
  \<^verbatim>\<open>setDate(getDate() + durationDays)\<close> have left: the calendar arithmetic of the
  runtime in the server's time zone is taken as given, and \<open>None\<close> is an Invalid Date,
  which the validator of the required field rejects. A ticket code that is already in
  the collection makes \<^verbatim>\<open>ticket.save()\<close> throw as well. The tickets saved before a
  throw stay.
\<close>

function mint_tickets ::
  "ticket list \<Rightarrow> oid \<Rightarrow> oid \<Rightarrow> int option \<Rightarrow> int \<Rightarrow> (nat \<Rightarrow> string) \<Rightarrow> int \<Rightarrow> int \<Rightarrow> ticket list
     \<Rightarrow> ticket list option \<times> ticket list" where
  "mint_tickets store uid gid dd now codes quantity i acc =
     (if i < quantity then
        (case dd of
           None \<Rightarrow> (None, store)
         | Some d \<Rightarrow>
             let t = \<lparr>tk_userId = uid, tk_gameId = gid, ticketCode = CHR ''T'' # codes (nat i),
                      purchaseDate = now, drawDate = d, tk_status = TicketActive, prizeWon = 0\<rparr>
             in (case save_ticket store t of
                   None \<Rightarrow> (None, store)
                 | Some store' \<Rightarrow>
                     mint_tickets store' uid gid dd now codes quantity (i + 1) (acc @ [t])))
      else (Some acc, store))"
  by pat_completeness auto
termination
  by (relation "measure (\<lambda>(store, uid, gid, dd, now, codes, quantity, i, acc). nat (quantity - i))")
     auto

declare mint_tickets.simps [simp del]

text \<open>The ticket document that iteration \<open>j\<close> of the loop builds.\<close>

definition mk_ticket :: "oid \<Rightarrow> oid \<Rightarrow> int \<Rightarrow> int \<Rightarrow> (nat \<Rightarrow> string) \<Rightarrow> nat \<Rightarrow> ticket" where
  "mk_ticket uid gid d now codes j =
     \<lparr>tk_userId = uid, tk_gameId = gid, ticketCode = CHR ''T'' # codes j,
      purchaseDate = now, drawDate = d, tk_status = TicketActive, prizeWon = 0\<rparr>"

definition post_tickets_purchase ::
  "state \<Rightarrow> oid option \<Rightarrow> oid \<Rightarrow> int option \<Rightarrow> string \<Rightarrow> (nat \<Rightarrow> string) \<Rightarrow> int \<Rightarrow> int option
     \<Rightarrow> (error + ticket list \<times> int) \<times> state" where
  "post_tickets_purchase s session gameId quantity_field rnd codes now dd =
     (case session of
        None \<Rightarrow> (Inl AuthenticationRequired, s)
      | Some uid \<Rightarrow>
          (case users s uid of
             None \<Rightarrow> (Inl UserNotFound, s)
           | Some usr \<Rightarrow>
               (case games s gameId of
                  None \<Rightarrow> (Inl GameNotFound, s)
                | Some gm \<Rightarrow>
                    let quantity = (case quantity_field of None \<Rightarrow> 1 | Some q \<Rightarrow> q);
                        totalCost = fl (price gm * quantity)
                    in if balance usr < totalCost then (Inl InsufficientBalance, s)
                       else
                         let usr' = usr\<lparr>balance := fl (balance usr - totalCost)\<rparr>;
                             s1 = s\<lparr>users := (users s)(uid \<mapsto> usr')\<rparr>;
                             t = \<lparr>tx_userId = uid, tx_type = GamePurchase,
                                  tx_status = Completed, tx_amount = totalCost,
                                  transactionId = ''tick_'' @ rnd,
                                  tx_description = ''Purchased '' @ show_int quantity
                                     @ '' ticket(s) for '' @ g_name gm,
                                  tx_createdAt = now\<rparr>
                         in (case save_transaction (transactions s1) t of
                               None \<Rightarrow> (Inl InternalServerError, s1)
                             | Some coll \<Rightarrow>
                                 let s2 = s1\<lparr>transactions := coll\<rparr>
                                 in (case mint_tickets (tickets s2) uid gameId dd now codes
                                            quantity 0 [] of
                                       (None, store) \<Rightarrow>
                                         (Inl InternalServerError, s2\<lparr>tickets := store\<rparr>)
                                     | (Some tks, store) \<Rightarrow>
                                         (Inr (tks, balance usr'), s2\<lparr>tickets := store\<rparr>))))))"

section \<open>POST /api/games/spin\<close>

text \<open>
  \<^verbatim>\<open>Math.random()\<close> yields a double in \<open>[0, 1)\<close>; every such double is \<open>m / 2 ^ k\<close> for
  natural numbers \<open>m\<close> and \<open>k\<close>, and the pair \<open>(m, k)\<close> stands for it. The product with
  the length of the prize list is rounded to a double before \<^verbatim>\<open>Math.floor\<close> takes its
  integer part. An index outside the array reads \<^verbatim>\<open>undefined\<close>, and
  \<^verbatim>\<open>prize.amount\<close> then throws a TypeError that the handler's \<^verbatim>\<open>catch\<close> turns into
  the 500 response.
\<close>

type_synonym dyadic = "nat \<times> nat"

fun random_index :: "dyadic \<Rightarrow> nat \<Rightarrow> nat" where
  "random_index (m, k) n = round53 (m * n) div 2 ^ k"

definition post_games_spin ::
  "state \<Rightarrow> oid option \<Rightarrow> oid \<Rightarrow> dyadic \<Rightarrow> string \<Rightarrow> int \<Rightarrow> (error + int \<times> int \<times> int) \<times> state" where
  "post_games_spin s session gameId r rnd now =
     (case session of
        None \<Rightarrow> (Inl AuthenticationRequired, s)
      | Some uid \<Rightarrow>
          (case users s uid of
             None \<Rightarrow> (Inl UserNotFound, s)
           | Some usr \<Rightarrow>
               (case games s gameId of
                  None \<Rightarrow> (Inl GameNotFound, s)
                | Some gm \<Rightarrow>
                    let ps = prizes gm;
                        randomIndex = random_index r (length ps)
                    in if randomIndex < length ps then
                         let pz = ps ! randomIndex
                         in if p_amount pz > 0 then
                              let usr' = usr\<lparr>balance := fl (balance usr + p_amount pz)\<rparr>;
                                  s1 = s\<lparr>users := (users s)(uid \<mapsto> usr')\<rparr>;
                                  t = \<lparr>tx_userId = uid, tx_type = PrizeWon,
                                       tx_status = Completed, tx_amount = p_amount pz,
                                       transactionId = ''win_'' @ rnd,
                                       tx_description = ''Won prize from '' @ g_name gm
                                          @ '' (Position: '' @ show_int (p_position pz) @ '')'',
                                       tx_createdAt = now\<rparr>
                              in (case save_transaction (transactions s1) t of
                                    None \<Rightarrow> (Inl InternalServerError, s1)
                                  | Some coll \<Rightarrow>
                                      (Inr (p_amount pz, p_position pz, balance usr'),
                                       s1\<lparr>transactions := coll\<rparr>))
                            else (Inr (p_amount pz, p_position pz, balance usr), s)
                       else (Inl InternalServerError, s))))"

section \<open>Sequences of requests\<close>

text \<open>
  A request is run to its response before the next one starts: the model has no two
  requests in flight at once. The deferred callback of a withdrawal is an event of its
  own, so any number of requests may come between a withdrawal and its settlement.
  Accounts are created by \<^verbatim>\<open>POST /api/register\<close> with \<^verbatim>\<open>balance: 0\<close>; the game catalog
  has no route and is given.
\<close>

datatype event =
    EDeposit "oid option" int string int
  | EWithdraw "oid option" int string string int
  | ESettle nat
  | EPurchase "oid option" oid "int option" string "nat \<Rightarrow> string" int "int option"
  | ESpin "oid option" oid dyadic string int

fun step :: "state \<Rightarrow> event \<Rightarrow> state" where
  "step s (EDeposit session amount tid now) = snd (post_deposit s session amount tid now)"
| "step s (EWithdraw session amount phone rnd now) =
     snd (post_withdraw s session amount phone rnd now)"
| "step s (ESettle k) = settlement s k"
| "step s (EPurchase session gameId q rnd codes now dd) =
     snd (post_tickets_purchase s session gameId q rnd codes now dd)"
| "step s (ESpin session gameId r rnd now) = snd (post_games_spin s session gameId r rnd now)"

fun run :: "state \<Rightarrow> event list \<Rightarrow> state" where
  "run s [] = s"
| "run s (e # es) = run (step s e) es"

text \<open>The events that are requests; the other one is a timer firing.\<close>

fun is_request :: "event \<Rightarrow> bool" where
  "is_request (EDeposit session amount tid now) = True"
| "is_request (EWithdraw session amount phone rnd now) = True"
| "is_request (ESettle k) = False"
| "is_request (EPurchase session gameId q rnd codes now dd) = True"
| "is_request (ESpin session gameId r rnd now) = True"

definition initial_state :: "oid list \<Rightarrow> (oid \<rightharpoonup> game) \<Rightarrow> state" where
  "initial_state registered catalog =
     \<lparr>users = (\<lambda>uid. if uid \<in> set registered then Some \<lparr>balance = 0\<rparr> else None),
      games = catalog, transactions = [], tickets = [], timers = []\<rparr>"

section \<open>The ledger of a user\<close>

text \<open>
  The two sums of the ledger property: the amounts of a user's \<open>Completed\<close> deposits and
  prizes, and the amounts of the user's \<open>Completed\<close> withdrawals and game purchases.
\<close>

definition credits :: "state \<Rightarrow> oid \<Rightarrow> int" where
  "credits s uid =
     sum_list (map tx_amount
       (filter (\<lambda>t. tx_userId t = uid \<and> tx_status t = Completed
                   \<and> (tx_type t = Deposit \<or> tx_type t = PrizeWon)) (transactions s)))"

definition debits :: "state \<Rightarrow> oid \<Rightarrow> int" where
  "debits s uid =
     sum_list (map tx_amount
       (filter (\<lambda>t. tx_userId t = uid \<and> tx_status t = Completed
                   \<and> (tx_type t = Withdrawal \<or> tx_type t = GamePurchase)) (transactions s)))"

text \<open>What one transaction adds to the difference of the two sums.\<close>

definition net :: "oid \<Rightarrow> transaction \<Rightarrow> int" where
  "net uid t =
     (if tx_userId t = uid \<and> tx_status t = Completed then
        (case tx_type t of
           Deposit \<Rightarrow> tx_amount t | PrizeWon \<Rightarrow> tx_amount t
         | Withdrawal \<Rightarrow> - tx_amount t | GamePurchase \<Rightarrow> - tx_amount t)
      else 0)"

section \<open>Conditions on a sequence of requests\<close>

text \<open>No deposit of the sequence carries a negative amount.\<close>

fun deposit_nonneg :: "event \<Rightarrow> bool" where
  "deposit_nonneg (EDeposit session amount tid now) = (0 \<le> amount)"
| "deposit_nonneg (EWithdraw session amount phone rnd now) = True"
| "deposit_nonneg (ESettle k) = True"
| "deposit_nonneg (EPurchase session gameId q rnd codes now dd) = True"
| "deposit_nonneg (ESpin session gameId r rnd now) = True"

text \<open>
  A step is undisturbed when the balance it writes is not rounded, when the save of the
  transaction record that goes with a balance change is accepted by the store, and when
  a settlement that writes finds the stored balance of its user equal to the balance of
  the document it closed over. A request that is turned away before it writes, and a
  purchase that fails at a ticket after its record is saved, are undisturbed.
\<close>

fun undisturbed_step :: "state \<Rightarrow> event \<Rightarrow> bool" where
  "undisturbed_step s (EDeposit session amount tid now) =
     (case session of
        None \<Rightarrow> True
      | Some uid \<Rightarrow>
          (case users s uid of
             None \<Rightarrow> True
           | Some usr \<Rightarrow>
               exact (balance usr + amount)
               \<and> (amount = 0 \<or> (tid \<noteq> [] \<and> tid \<notin> set (map transactionId (transactions s))))))"
| "undisturbed_step s (EWithdraw session amount phone rnd now) = True"
| "undisturbed_step s (ESettle k) =
     (if k < length (timers s) then
        (case users s (st_userId (timers s ! k)) of
           None \<Rightarrow> True
         | Some stored \<Rightarrow>
             exact (balance (st_user (timers s ! k)) - st_amount (timers s ! k))
             \<and> (st_amount (timers s ! k) = 0
                  \<or> balance stored = balance (st_user (timers s ! k))))
      else True)"
| "undisturbed_step s (EPurchase session gameId q rnd codes now dd) =
     (case session of
        None \<Rightarrow> True
      | Some uid \<Rightarrow>
          (case users s uid of
             None \<Rightarrow> True
           | Some usr \<Rightarrow>
               (case games s gameId of
                  None \<Rightarrow> True
                | Some gm \<Rightarrow>
                    let cost = fl (price gm * (case q of None \<Rightarrow> 1 | Some n \<Rightarrow> n))
                    in balance usr < cost
                       \<or> (exact (balance usr - cost)
                           \<and> (cost = 0
                                \<or> ''tick_'' @ rnd \<notin> set (map transactionId (transactions s)))))))"
| "undisturbed_step s (ESpin session gameId r rnd now) =
     (case session of
        None \<Rightarrow> True
      | Some uid \<Rightarrow>
          (case users s uid of
             None \<Rightarrow> True
           | Some usr \<Rightarrow>
               (case games s gameId of
                  None \<Rightarrow> True
                | Some gm \<Rightarrow>
                    let i = random_index r (length (prizes gm))
                    in if i < length (prizes gm) \<and> 0 < p_amount (prizes gm ! i) then
                         exact (balance usr + p_amount (prizes gm ! i))
                         \<and> ''win_'' @ rnd \<notin> set (map transactionId (transactions s))
                       else True)))"

fun undisturbed :: "state \<Rightarrow> event list \<Rightarrow> bool" where
  "undisturbed s [] = True"
| "undisturbed s (e # es) = (undisturbed_step s e \<and> undisturbed (step s e) es)"

section \<open>Invariants of the reachable states\<close>

definition balances_nonneg :: "state \<Rightarrow> bool" where
  "balances_nonneg s \<longleftrightarrow> (\<forall>uid u. users s uid = Some u \<longrightarrow> 0 \<le> balance u)"

definition unique_ids :: "state \<Rightarrow> bool" where
  "unique_ids s \<longleftrightarrow> distinct (map transactionId (transactions s))"

definition timers_ok :: "state \<Rightarrow> bool" where
  "timers_ok s \<longleftrightarrow>
     distinct (map st_tx (timers s))
     \<and> (\<forall>c \<in> set (timers s).
           st_tx c < length (transactions s)
           \<and> tx_type (transactions s ! st_tx c) = Withdrawal
           \<and> tx_status (transactions s ! st_tx c) = Pending
           \<and> tx_userId (transactions s ! st_tx c) = st_userId c
           \<and> tx_amount (transactions s ! st_tx c) = st_amount c
           \<and> users s (st_userId c) \<noteq> None
           \<and> st_amount c \<le> balance (st_user c))"

definition ledger_ok :: "state \<Rightarrow> bool" where
  "ledger_ok s \<longleftrightarrow>
     (\<forall>uid u. users s uid = Some u \<longrightarrow> balance u = sum_list (map (net uid) (transactions s)))"

section \<open>Example data\<close>

definition demo_game :: game where
  "demo_game = \<lparr>g_name = ''Lucky Wheel'', g_type = Wheel, price = 30, prizePool = 1000,
      durationDays = 7, spinsPerDay = 3,
      prizes = [\<lparr>p_position = 0, p_amount = 0\<rparr>, \<lparr>p_position = 1, p_amount = 100\<rparr>,
                \<lparr>p_position = 2, p_amount = 0\<rparr>],
      g_active = True\<rparr>"

definition closed_game :: game where
  "closed_game = \<lparr>g_name = ''Closed Draw'', g_type = Draw, price = 30, prizePool = 1000,
      durationDays = 7, spinsPerDay = 3, prizes = [], g_active = False\<rparr>"

definition demo_catalog :: "oid \<rightharpoonup> game" where
  "demo_catalog = [1 \<mapsto> demo_game, 2 \<mapsto> closed_game]"

text \<open>\<^verbatim>\<open>Math.random()\<close> yielding one half.\<close>

definition one_half :: dyadic where
  "one_half = (1, 1)"

definition demo_funded :: state where
  "demo_funded = run (initial_state [1] demo_catalog)
     [EDeposit (Some 1) 100 ''pesapal-1'' 10, EDeposit (Some 1) 50 ''pesapal-2'' 20]"

definition settled_run :: "event list" where
  "settled_run =
     [EDeposit (Some 1) 100 ''pesapal-1'' 10,
      EWithdraw (Some 1) 100 ''256700'' ''k3j9x0q1z'' 20,
      ESettle 0]"

definition stale_run :: "event list" where
  "stale_run =
     [EDeposit (Some 1) 100 ''pesapal-1'' 10,
      EWithdraw (Some 1) 100 ''256700'' ''k3j9x0q1z'' 20,
      EDeposit (Some 1) 50 ''pesapal-2'' 30,
      ESettle 0]"

definition repeated_deposit_run :: "event list" where
  "repeated_deposit_run =
     [EDeposit (Some 1) 100 ''pesapal-1'' 10,
      EDeposit (Some 1) 50 ''pesapal-1'' 20]"


definition pending_state :: state where
  "pending_state =
     \<lparr>users = [1 \<mapsto> \<lparr>balance = 100\<rparr>], games = demo_catalog,
      transactions =
        [\<lparr>tx_userId = 1, tx_type = Deposit, tx_status = Completed, tx_amount = 100,
          transactionId = ''pesapal-1'', tx_description = ''Deposit via Pesapal'',
          tx_createdAt = 10\<rparr>,
         \<lparr>tx_userId = 1, tx_type = Withdrawal, tx_status = Pending, tx_amount = 100,
          transactionId = ''wd_k3j9x0q1z'', tx_description = ''Withdrawal to 256700'',
          tx_createdAt = 20\<rparr>],
      tickets = [],
      timers = [\<lparr>st_userId = 1, st_user = \<lparr>balance = 100\<rparr>, st_tx = 1, st_amount = 100,
                 st_phone = ''256700''\<rparr>]\<rparr>"

definition demo_codes :: "nat \<Rightarrow> string" where
  "demo_codes j = [''A1B2C3D4E'', ''F5G6H7I8J'', ''K9L0M1N2O''] ! (j mod 3)"


definition bought_state :: state where
  "bought_state =
     snd (post_tickets_purchase demo_funded (Some 1) 1 (Some 1) ''p0o9i8u7y'' demo_codes 30
            (Some 604800030))"

definition won_state :: state where
  "won_state = snd (post_games_spin demo_funded (Some 1) 1 one_half ''k3j9x0q1z'' 30)"

text \<open>A log of 51 deposits of user 1, created at times 1 to 51, and one of user 2.\<close>

definition busy_tx :: "oid \<Rightarrow> nat \<Rightarrow> transaction" where
  "busy_tx uid i =
     \<lparr>tx_userId = uid, tx_type = Deposit, tx_status = Completed, tx_amount = 1,
      transactionId = ''pesapal-'' @ show_nat i, tx_description = ''Deposit via Pesapal'',
      tx_createdAt = int i\<rparr>"

definition busy_state :: state where
  "busy_state =
     \<lparr>users = [1 \<mapsto> \<lparr>balance = 51\<rparr>, 2 \<mapsto> \<lparr>balance = 1\<rparr>], games = demo_catalog,
      transactions = map (busy_tx 1) [1..<52] @ [busy_tx 2 52],
      tickets = [], timers = []\<rparr>"

section \<open>Rounding\<close>

lemma fl_nonneg: "0 \<le> x \<Longrightarrow> 0 \<le> fl x"
  by (simp add: fl_def)

lemma fl_small: "\<bar>x\<bar> < 2 ^ 53 \<Longrightarrow> fl x = x"
  by (auto simp: fl_def round53_def)

lemma fl_zero [simp]: "fl 0 = 0"
  by (simp add: fl_small)

lemma exact_small: "\<bar>x\<bar> < 2 ^ 53 \<Longrightarrow> exact x"
proof -
  assume a: "\<bar>x\<bar> < 2 ^ 53"
  have "(2::int) ^ 53 < 2 ^ 1024"
    by (rule power_strict_increasing) simp_all
  with a show ?thesis
    by (simp add: exact_def fl_small)
qed

lemma exact_fl: "exact x \<Longrightarrow> fl x = x"
  by (simp add: exact_def)

section \<open>Decimal numerals\<close>











lemmas handler_defs = post_deposit_def post_withdraw_def post_tickets_purchase_def
  post_games_spin_def save_transaction_def Let_def

section \<open>Invariants are kept by every step\<close>

lemma settlement_fields:
  assumes "k < length (timers s)" and "timers s ! k = c"
    and "st_tx c < length (transactions s)" and "users s (st_userId c) = Some u"
  shows "timers (settlement s k) = take k (timers s) @ drop (Suc k) (timers s)"
    and "transactions (settlement s k) =
           (transactions s)[st_tx c := (transactions s ! st_tx c)\<lparr>tx_status := Completed\<rparr>]"
    and "users (settlement s k) =
           (if fl (balance (st_user c) - st_amount c) = balance (st_user c) then users s
            else (users s)(st_userId c \<mapsto>
                   u\<lparr>balance := fl (balance (st_user c) - st_amount c)\<rparr>))"
  using assms by (auto simp: settlement_def Let_def)

lemma settlement_users_same_balance:
  assumes "k < length (timers s)" and "timers s ! k = c"
    and "st_tx c < length (transactions s)" and "users s (st_userId c) = Some u"
    and "balance u = balance (st_user c)"
  shows "users (settlement s k) =
           (users s)(st_userId c \<mapsto> u\<lparr>balance := fl (balance u - st_amount c)\<rparr>)"
proof (cases "fl (balance (st_user c) - st_amount c) = balance (st_user c)")
  case True
  then have "u\<lparr>balance := fl (balance u - st_amount c)\<rparr> = u"
    using assms(5) by simp
  then have "(users s)(st_userId c \<mapsto> u\<lparr>balance := fl (balance u - st_amount c)\<rparr>) = users s"
    using assms(4) by (simp add: fun_upd_idem)
  then show ?thesis
    using settlement_fields(3)[OF assms(1-4)] True by simp
next
  case False
  then show ?thesis
    using settlement_fields(3)[OF assms(1-4)] assms(5) by simp
qed

lemma nonneg_step:
  assumes "balances_nonneg s" and "timers_ok s" and "deposit_nonneg e"
  shows "balances_nonneg (step s e)"
proof (cases e)
  case (EDeposit session amount tid now)
  with assms show ?thesis
    by (auto simp: balances_nonneg_def handler_defs split: option.splits intro!: fl_nonneg)
next
  case (EWithdraw session amount phone rnd now)
  with assms show ?thesis
    by (auto simp: balances_nonneg_def handler_defs split: option.splits)
next
  case (ESettle k)
  have "0 \<le> fl (balance (st_user (timers s ! k)) - st_amount (timers s ! k))"
    if "k < length (timers s)"
    using assms(2) that by (intro fl_nonneg) (simp add: timers_ok_def)
  with assms(1) ESettle show ?thesis
    by (auto simp: balances_nonneg_def settlement_def Let_def split: option.splits)
next
  case (EPurchase session gameId q rnd codes now dd)
  with assms show ?thesis
    by (auto simp: balances_nonneg_def handler_defs split: option.splits prod.splits
             intro!: fl_nonneg)
next
  case (ESpin session gameId r rnd now)
  with assms show ?thesis
    by (auto simp: balances_nonneg_def handler_defs split: option.splits intro!: fl_nonneg)
qed

lemma map_id_update_status:
  "i < length xs \<Longrightarrow> map transactionId (xs[i := (xs ! i)\<lparr>tx_status := st\<rparr>]) = map transactionId xs"
  by (simp add: map_update list_update_same_conv)

lemma unique_step:
  assumes "unique_ids s"
  shows "unique_ids (step s e)"
proof (cases e)
  case (ESettle k)
  with assms show ?thesis
    by (auto simp: unique_ids_def settlement_def Let_def map_id_update_status split: option.splits)
next
  case (EPurchase session gameId q rnd codes now dd)
  with assms show ?thesis
    by (auto simp: unique_ids_def handler_defs split: option.splits prod.splits)
qed (use assms in \<open>auto simp: unique_ids_def handler_defs split: option.splits\<close>)

lemma timers_ok_append_tx:
  assumes "timers_ok s"
  shows "timers_ok (s\<lparr>transactions := transactions s @ [t]\<rparr>)"
  using assms by (auto simp: timers_ok_def nth_append)

lemma timers_ok_users:
  assumes "timers_ok s" and "users s uid = Some usr"
  shows "timers_ok (s\<lparr>users := (users s)(uid \<mapsto> usr')\<rparr>)"
  using assms by (auto simp: timers_ok_def)

lemma timers_ok_step:
  assumes "timers_ok s"
  shows "timers_ok (step s e)"
proof (cases e)
  case (EDeposit session amount tid now)
  with assms show ?thesis
    by (auto simp: timers_ok_def handler_defs nth_append split: option.splits)
next
  case (EWithdraw session amount phone rnd now)
  with assms show ?thesis
    by (auto simp: timers_ok_def handler_defs nth_append split: option.splits)
next
  case (ESettle k)
  show ?thesis
  proof (cases "k < length (timers s)")
    case False
    with assms ESettle show ?thesis by (simp add: settlement_def)
  next
    case True
    let ?c = "timers s ! k"
    let ?rest = "take k (timers s) @ drop (Suc k) (timers s)"
    have c: "?c \<in> set (timers s)" using True by simp
    have split: "timers s = take k (timers s) @ ?c # drop (Suc k) (timers s)"
      using True by (simp add: id_take_nth_drop)
    have dist: "distinct (map st_tx (take k (timers s) @ ?c # drop (Suc k) (timers s)))"
      using assms split by (simp add: timers_ok_def)
    have rest_sub: "set ?rest \<subseteq> set (timers s)"
      by (auto dest: in_set_takeD in_set_dropD)
    have rest_neq: "st_tx d \<noteq> st_tx ?c" if "d \<in> set ?rest" for d
      using dist that by (fastforce simp: image_iff)
    have rest_dist: "distinct (map st_tx ?rest)"
      using dist by auto
    have ok: "st_tx d < length (transactions s)
           \<and> tx_type (transactions s ! st_tx d) = Withdrawal
           \<and> tx_status (transactions s ! st_tx d) = Pending
           \<and> tx_userId (transactions s ! st_tx d) = st_userId d
           \<and> tx_amount (transactions s ! st_tx d) = st_amount d
           \<and> users s (st_userId d) \<noteq> None
           \<and> st_amount d \<le> balance (st_user d)" if "d \<in> set (timers s)" for d
      using assms that by (simp add: timers_ok_def)
    obtain u where u: "users s (st_userId ?c) = Some u"
      using ok[OF c] by auto
    let ?txs = "(transactions s)[st_tx ?c := (transactions s ! st_tx ?c)\<lparr>tx_status := Completed\<rparr>]"
    let ?s' = "settlement s k"
    have tm: "timers ?s' = ?rest" and tx: "transactions ?s' = ?txs"
      using settlement_fields(1,2)[OF True refl _ u] ok[OF c] by simp_all
    have us: "users ?s' uid \<noteq> None" if "users s uid \<noteq> None" for uid
      using settlement_fields(3)[OF True refl _ u] ok[OF c] that by simp
    have keep: "?txs ! st_tx d = transactions s ! st_tx d" if "d \<in> set ?rest" for d
      using rest_neq[OF that] by simp
    have "\<forall>d \<in> set ?rest. st_tx d < length ?txs
           \<and> tx_type (?txs ! st_tx d) = Withdrawal
           \<and> tx_status (?txs ! st_tx d) = Pending
           \<and> tx_userId (?txs ! st_tx d) = st_userId d
           \<and> tx_amount (?txs ! st_tx d) = st_amount d
           \<and> users ?s' (st_userId d) \<noteq> None
           \<and> st_amount d \<le> balance (st_user d)"
    proof
      fix d assume d: "d \<in> set ?rest"
      then have "d \<in> set (timers s)" using rest_sub by blast
      from ok[OF this] keep[OF d] us[of "st_userId d"] show "st_tx d < length ?txs
           \<and> tx_type (?txs ! st_tx d) = Withdrawal
           \<and> tx_status (?txs ! st_tx d) = Pending
           \<and> tx_userId (?txs ! st_tx d) = st_userId d
           \<and> tx_amount (?txs ! st_tx d) = st_amount d
           \<and> users ?s' (st_userId d) \<noteq> None
           \<and> st_amount d \<le> balance (st_user d)"
        by simp
    qed
    then have "timers_ok ?s'"
      unfolding timers_ok_def tm tx using rest_dist by blast
    then show ?thesis using ESettle by simp
  qed
next
  case (EPurchase session gameId q rnd codes now dd)
  with assms show ?thesis
    by (auto simp: timers_ok_def handler_defs nth_append split: option.splits prod.splits)
next
  case (ESpin session gameId r rnd now)
  with assms show ?thesis
    by (auto simp: timers_ok_def handler_defs nth_append split: option.splits)
qed

lemma sum_list_map_update:
  fixes f :: "'a \<Rightarrow> int"
  shows "i < length xs \<Longrightarrow> sum_list (map f (xs[i := y])) = sum_list (map f xs) - f (xs ! i) + f y"
proof (induction xs arbitrary: i)
  case Nil
  then show ?case by simp
next
  case (Cons x xs)
  then show ?case by (cases i) auto
qed

lemma ledger_ok_step:
  assumes "ledger_ok s" and "timers_ok s" and "undisturbed_step s e"
  shows "ledger_ok (step s e)"
proof (cases e)
  case (EDeposit session amount tid now)
  with assms show ?thesis
    by (auto simp: ledger_ok_def handler_defs net_def exact_def split: option.splits if_splits)
next
  case (EWithdraw session amount phone rnd now)
  with assms show ?thesis
    by (auto simp: ledger_ok_def handler_defs net_def split: option.splits if_splits)
next
  case (ESettle k)
  show ?thesis
  proof (cases "k < length (timers s)")
    case False
    with assms ESettle show ?thesis by (simp add: settlement_def)
  next
    case True
    let ?c = "timers s ! k"
    let ?i = "st_tx ?c"
    let ?old = "transactions s ! ?i"
    let ?new = "?old\<lparr>tx_status := Completed\<rparr>"
    have c: "?c \<in> set (timers s)" using True by simp
    have ok: "?i < length (transactions s)" "tx_type ?old = Withdrawal" "tx_status ?old = Pending"
      "tx_userId ?old = st_userId ?c" "tx_amount ?old = st_amount ?c" "users s (st_userId ?c) \<noteq> None"
      "st_amount ?c \<le> balance (st_user ?c)"
      using assms(2) c by (simp_all add: timers_ok_def)
    obtain u where u: "users s (st_userId ?c) = Some u"
      using ok(6) by auto
    have und: "exact (balance (st_user ?c) - st_amount ?c)"
      "st_amount ?c = 0 \<or> balance u = balance (st_user ?c)"
      using assms(3) ESettle True u by simp_all
    let ?s' = "settlement s k"
    have tx: "transactions ?s' = (transactions s)[?i := ?new]"
      using settlement_fields(2)[OF True refl ok(1) u] .
    have us: "users ?s' = (users s)(st_userId ?c \<mapsto> u\<lparr>balance := balance u - st_amount ?c\<rparr>)"
    proof (cases "st_amount ?c = 0")
      case True
      then have "users ?s' = users s"
        using settlement_fields(3)[OF \<open>k < length (timers s)\<close> refl ok(1) u] und(1)
        by (simp add: exact_def)
      moreover have "(users s)(st_userId ?c \<mapsto> u\<lparr>balance := balance u - st_amount ?c\<rparr>) = users s"
        using True u by (simp add: fun_upd_idem)
      ultimately show ?thesis by simp
    next
      case False
      with und(2) have same: "balance u = balance (st_user ?c)" by simp
      show ?thesis
        using settlement_users_same_balance[OF \<open>k < length (timers s)\<close> refl ok(1) u same]
          und(1) same by (simp add: exact_def)
    qed
    have sum: "sum_list (map (net uid) (transactions ?s')) =
        sum_list (map (net uid) (transactions s)) - (if uid = st_userId ?c then st_amount ?c else 0)" for uid
      unfolding tx using ok by (simp add: sum_list_map_update net_def)
    have "ledger_ok ?s'"
      unfolding ledger_ok_def
    proof (intro allI impI)
      fix uid v assume v: "users ?s' uid = Some v"
      show "balance v = sum_list (map (net uid) (transactions ?s'))"
      proof (cases "uid = st_userId ?c")
        case True
        then have "v = u\<lparr>balance := balance u - st_amount ?c\<rparr>"
          using v us by simp
        then have "balance v = balance u - st_amount ?c"
          by simp
        moreover have "balance u = sum_list (map (net uid) (transactions s))"
          using assms(1) u True by (simp add: ledger_ok_def)
        ultimately show ?thesis using sum[of uid] True by simp
      next
        case False
        then have "users s uid = Some v" using v us by simp
        then have "balance v = sum_list (map (net uid) (transactions s))"
          using assms(1) by (simp add: ledger_ok_def)
        then show ?thesis using sum[of uid] False by simp
      qed
    qed
    then show ?thesis using ESettle by simp
  qed
next
  case (EPurchase session gameId q rnd codes now dd)
  with assms show ?thesis
    by (auto simp: ledger_ok_def handler_defs net_def exact_def
             split: option.splits if_splits prod.splits)
next
  case (ESpin session gameId r rnd now)
  with assms show ?thesis
    by (auto simp: ledger_ok_def handler_defs net_def exact_def split: option.splits if_splits)
qed

lemma ledger_net: "credits s uid - debits s uid = sum_list (map (net uid) (transactions s))"
proof -
  have "sum_list (map tx_amount (filter P xs)) - sum_list (map tx_amount (filter Q xs))
      = sum_list (map (\<lambda>t. (if P t then tx_amount t else 0) - (if Q t then tx_amount t else 0)) xs)"
    for P Q and xs :: "transaction list"
    by (induction xs) auto
  moreover have "(if tx_userId t = uid \<and> tx_status t = Completed \<and> (tx_type t = Deposit \<or> tx_type t = PrizeWon) then tx_amount t else 0)
     - (if tx_userId t = uid \<and> tx_status t = Completed \<and> (tx_type t = Withdrawal \<or> tx_type t = GamePurchase) then tx_amount t else 0)
     = net uid t" for t
    by (cases "tx_type t") (auto simp: net_def)
  ultimately show ?thesis
    by (simp add: credits_def debits_def)
qed

lemma initial_invariants:
  "balances_nonneg (initial_state registered catalog)"
  "unique_ids (initial_state registered catalog)"
  "timers_ok (initial_state registered catalog)"
  "ledger_ok (initial_state registered catalog)"
  by (auto simp: initial_state_def balances_nonneg_def unique_ids_def timers_ok_def ledger_ok_def
           split: if_splits)


lemma unique_ids_run: "unique_ids s \<Longrightarrow> unique_ids (run s evs)"
  by (induction evs arbitrary: s) (simp_all add: unique_step)

lemma balances_nonneg_run:
  "balances_nonneg s \<Longrightarrow> timers_ok s \<Longrightarrow> list_all deposit_nonneg evs \<Longrightarrow> balances_nonneg (run s evs)"
  by (induction evs arbitrary: s) (simp_all add: nonneg_step timers_ok_step)

lemma ledger_ok_run:
  "ledger_ok s \<Longrightarrow> timers_ok s \<Longrightarrow> undisturbed s evs \<Longrightarrow> ledger_ok (run s evs)"
  by (induction evs arbitrary: s) (simp_all add: ledger_ok_step timers_ok_step)

lemma insort_key_last:
  "\<forall>y \<in> set ys. f y < f x \<Longrightarrow> insort_key f x ys = ys @ [x]"
  by (induction ys) auto

lemma sort_key_descending:
  "sorted_wrt (\<lambda>a b. f b < f a) xs \<Longrightarrow> sort_key f xs = rev xs"
  by (induction xs) (auto simp: insort_key_last)

lemma busy_listing:
  "get_transactions busy_state (Some 1) = (Inr (map (busy_tx 1) (rev [2..<52])), busy_state)"
proof -
  let ?own = "map (busy_tx 1) [1..<52]"
  have own: "filter (\<lambda>t. tx_userId t = 1) (transactions busy_state) = ?own"
    by (simp add: busy_state_def busy_tx_def filter_map o_def)
  have "sorted_wrt (\<lambda>a b. - tx_createdAt b < - tx_createdAt a) ?own"
    by (simp add: sorted_wrt_map busy_tx_def sorted_wrt_upt)
  then have "sort_key (\<lambda>t. - tx_createdAt t) ?own = rev ?own"
    by (rule sort_key_descending)
  moreover have "take 50 (rev ?own) = map (busy_tx 1) (rev [2..<52])"
  proof -
    have "drop 1 [1..<52::nat] = [1 + 1..<52]"
      by (rule drop_upt)
    then have "take 50 (rev [1..<52::nat]) = rev [2..<52]"
      by (simp only: take_rev length_upt one_add_one) simp
    then show ?thesis
      by (simp only: rev_map take_map)
  qed
  ultimately show ?thesis
    by (simp only: get_transactions_def own option.case)
qed

lemmas eval_defs = initial_state_def post_deposit_def post_withdraw_def settlement_def
  post_tickets_purchase_def post_games_spin_def save_transaction_def save_ticket_def Let_def
  demo_catalog_def demo_game_def closed_game_def one_half_def fl_small exact_small

lemma demo_funded_eq:
  "demo_funded =
     \<lparr>users = [1 \<mapsto> \<lparr>balance = 150\<rparr>], games = demo_catalog,
      transactions =
        [\<lparr>tx_userId = 1, tx_type = Deposit, tx_status = Completed, tx_amount = 100,
          transactionId = ''pesapal-1'', tx_description = ''Deposit via Pesapal'',
          tx_createdAt = 10\<rparr>,
         \<lparr>tx_userId = 1, tx_type = Deposit, tx_status = Completed, tx_amount = 50,
          transactionId = ''pesapal-2'', tx_description = ''Deposit via Pesapal'',
          tx_createdAt = 20\<rparr>],
      tickets = [], timers = []\<rparr>"
  by (simp add: demo_funded_def initial_state_def post_deposit_def save_transaction_def
        fl_small fun_eq_iff)

section \<open>Listing transactions\<close>

lemma sort_key_newest_first:
  "sorted_wrt (\<lambda>a b. tx_createdAt b \<le> tx_createdAt a) (sort_key (\<lambda>t. - tx_createdAt t) xs)"
proof -
  have "sorted (map (\<lambda>t. - tx_createdAt t) (sort_key (\<lambda>t. - tx_createdAt t) xs))"
    by (rule sorted_sort_key)
  then show ?thesis
    by (simp add: sorted_wrt_map)
qed

lemma sorted_wrt_take_drop:
  assumes "sorted_wrt P xs" and "a \<in> set (take n xs)" and "b \<in> set (drop n xs)"
  shows "P a b"
proof -
  have "sorted_wrt P (take n xs @ drop n xs)"
    using assms(1) by simp
  with assms(2,3) show ?thesis
    unfolding sorted_wrt_append by blast
qed

lemma mset_take_drop: "mset xs = mset (take n xs) + mset (drop n xs)"
proof -
  have "mset (take n xs @ drop n xs) = mset (take n xs) + mset (drop n xs)"
    by (rule mset_append)
  then show ?thesis by simp
qed

text \<open>
  C9. For a signed-in user the listing leaves the state as it was and returns
  transactions of that user only, none more often than the log has it: all of them when
  the user has at most 50, and 50 of them otherwise. The list is ordered newest first by
  creation time, and no transaction of the user that is left out was created after one
  that is returned.
\<close>

theorem get_transactions_newest_50:
  assumes "get_transactions s (Some uid) = (out, s')"
  shows "s' = s \<and>
     (\<exists>txs. out = Inr txs
        \<and> length txs = min 50 (length (filter (\<lambda>t. tx_userId t = uid) (transactions s)))
        \<and> mset txs \<subseteq># mset (filter (\<lambda>t. tx_userId t = uid) (transactions s))
        \<and> sorted_wrt (\<lambda>a b. tx_createdAt b \<le> tx_createdAt a) txs
        \<and> (\<forall>t \<in># mset (filter (\<lambda>t. tx_userId t = uid) (transactions s)) - mset txs.
              \<forall>t' \<in> set txs. tx_createdAt t \<le> tx_createdAt t'))"
proof -
  let ?own = "filter (\<lambda>t. tx_userId t = uid) (transactions s)"
  let ?l = "sort_key (\<lambda>t. - tx_createdAt t) ?own"
  have out: "out = Inr (take 50 ?l)" and s': "s' = s"
    using assms by (auto simp: get_transactions_def)
  have srt: "sorted_wrt (\<lambda>a b. tx_createdAt b \<le> tx_createdAt a) ?l"
    by (rule sort_key_newest_first)
  have len: "length (take 50 ?l) = min 50 (length ?own)"
    by (simp add: min.commute)
  have split: "mset ?own = mset (take 50 ?l) + mset (drop 50 ?l)"
    using mset_take_drop[of ?l 50] by simp
  then have sub: "mset (take 50 ?l) \<subseteq># mset ?own"
    by simp
  have rest: "mset ?own - mset (take 50 ?l) = mset (drop 50 ?l)"
    using split by simp
  have recent: "tx_createdAt t \<le> tx_createdAt t'"
    if "t \<in># mset ?own - mset (take 50 ?l)" "t' \<in> set (take 50 ?l)" for t t'
  proof -
    have "t \<in> set (drop 50 ?l)"
      using that(1) unfolding rest by simp
    then show ?thesis
      using sorted_wrt_take_drop[OF srt that(2)] by blast
  qed
  have "out = Inr (take 50 ?l)
      \<and> length (take 50 ?l) = min 50 (length ?own)
      \<and> mset (take 50 ?l) \<subseteq># mset ?own
      \<and> sorted_wrt (\<lambda>a b. tx_createdAt b \<le> tx_createdAt a) (take 50 ?l)
      \<and> (\<forall>t \<in># mset ?own - mset (take 50 ?l).
            \<forall>t' \<in> set (take 50 ?l). tx_createdAt t \<le> tx_createdAt t')"
    using out len sub recent sorted_wrt_take[OF srt] by blast
  then show ?thesis
    using s' by blast
qed

theorem get_transactions_newest_50_witness:
  "get_transactions busy_state (Some 1) = (Inr (map (busy_tx 1) (rev [2..<52])), busy_state)
   \<and> length (transactions busy_state) = 52
   \<and> length (filter (\<lambda>t. tx_userId t = 1) (transactions busy_state)) = 51
   \<and> length (map (busy_tx 1) (rev [2..<52])) = 50
   \<and> mset (map (busy_tx 1) (rev [2..<52]))
        \<subseteq># mset (filter (\<lambda>t. tx_userId t = 1) (transactions busy_state))
   \<and> sorted_wrt (\<lambda>a b. tx_createdAt b \<le> tx_createdAt a) (map (busy_tx 1) (rev [2..<52]))"
proof -
  have own: "length (filter (\<lambda>t. tx_userId t = 1) (transactions busy_state)) = 51"
    by (simp add: busy_state_def busy_tx_def filter_map o_def)
  have all: "length (transactions busy_state) = 52"
    by (simp add: busy_state_def)
  have len: "length (map (busy_tx 1) (rev [2..<52])) = 50"
    by simp
  from get_transactions_newest_50[OF busy_listing]
  have sub: "mset (map (busy_tx 1) (rev [2..<52]))
          \<subseteq># mset (filter (\<lambda>t. tx_userId t = 1) (transactions busy_state))"
    and srt: "sorted_wrt (\<lambda>a b. tx_createdAt b \<le> tx_createdAt a)
                (map (busy_tx 1) (rev [2..<52]))"
    by blast+
  show ?thesis
    by (intro conjI busy_listing all own len sub srt)
qed

section \<open>Requesting a withdrawal\<close>

text \<open>
  C8, as the code has it. A withdrawal request of a user whose balance is below the
  requested amount is answered with \<^verbatim>\<open>Insufficient balance\<close> and leaves the whole state
  as it was: no transaction is created and no balance changes. Otherwise, when the
  generated identifier is not yet in the log, the request appends one \<open>Pending\<close>
  withdrawal transaction, answers with its identifier at once, and only schedules the
  settlement: every balance is still what it was. Otherwise, when the generated
  identifier is already in the log, the request is answered with
  \<^verbatim>\<open>Internal server error\<close> and the state is as it was.
\<close>

theorem post_withdraw_request:
  assumes "users s uid = Some usr"
  shows "(balance usr < amount \<longrightarrow>
            post_withdraw s (Some uid) amount phone rnd now = (Inl InsufficientBalance, s))
       \<and> (\<not> balance usr < amount
            \<and> ''wd_'' @ rnd \<notin> set (map transactionId (transactions s)) \<longrightarrow>
            post_withdraw s (Some uid) amount phone rnd now =
              (Inr (''wd_'' @ rnd),
               s\<lparr>transactions := transactions s @
                    [\<lparr>tx_userId = uid, tx_type = Withdrawal, tx_status = Pending,
                      tx_amount = amount, transactionId = ''wd_'' @ rnd,
                      tx_description = ''Withdrawal to '' @ phone, tx_createdAt = now\<rparr>],
                  timers := timers s @
                    [\<lparr>st_userId = uid, st_user = usr, st_tx = length (transactions s),
                      st_amount = amount, st_phone = phone\<rparr>]\<rparr>))
       \<and> (\<not> balance usr < amount
            \<and> ''wd_'' @ rnd \<in> set (map transactionId (transactions s)) \<longrightarrow>
            post_withdraw s (Some uid) amount phone rnd now = (Inl InternalServerError, s))"
  using assms by (simp add: post_withdraw_def save_transaction_def)

theorem post_withdraw_request_witness:
  "users demo_funded 1 = Some \<lparr>balance = 150\<rparr>
   \<and> post_withdraw demo_funded (Some 1) 160 ''256700'' ''k3j9x0q1z'' 30
        = (Inl InsufficientBalance, demo_funded)
   \<and> fst (post_withdraw demo_funded (Some 1) 150 ''256700'' ''k3j9x0q1z'' 30)
        = Inr ''wd_k3j9x0q1z''
   \<and> map tx_status
        (transactions (snd (post_withdraw demo_funded (Some 1) 150 ''256700'' ''k3j9x0q1z'' 30)))
        = [Completed, Completed, Pending]
   \<and> users (snd (post_withdraw demo_funded (Some 1) 150 ''256700'' ''k3j9x0q1z'' 30)) 1
        = Some \<lparr>balance = 150\<rparr>
   \<and> post_withdraw pending_state (Some 1) 70 ''256700'' ''k3j9x0q1z'' 40
        = (Inl InternalServerError, pending_state)"
  using post_withdraw_request
          [of demo_funded 1 "\<lparr>balance = 150\<rparr>" 160 "''256700''" "''k3j9x0q1z''" 30]
        post_withdraw_request
          [of demo_funded 1 "\<lparr>balance = 150\<rparr>" 150 "''256700''" "''k3j9x0q1z''" 30]
        post_withdraw_request
          [of pending_state 1 "\<lparr>balance = 100\<rparr>" 70 "''256700''" "''k3j9x0q1z''" 40]
  by (simp add: demo_funded_eq pending_state_def)

text \<open>
  C8 as stated fails. The user's balance is 100 and the request asks for 100, so the
  balance is not below the amount; the generated suffix repeats the one of the pending
  withdrawal in the log. The request creates no \<open>Pending\<close> transaction and returns no
  identifier: it is answered with \<^verbatim>\<open>Internal server error\<close>.
\<close>

theorem withdraw_request_counterexample:
  "users pending_state 1 = Some \<lparr>balance = 100\<rparr>
   \<and> \<not> (100 :: int) < 100
   \<and> post_withdraw pending_state (Some 1) 100 ''256711'' ''k3j9x0q1z'' 40
        = (Inl InternalServerError, pending_state)"
  by (simp add: pending_state_def post_withdraw_def save_transaction_def)

section \<open>Spinning the wheel\<close>


lemma won_state_eq:
  "won_state =
     \<lparr>users = [1 \<mapsto> \<lparr>balance = 250\<rparr>], games = demo_catalog,
      transactions =
        [\<lparr>tx_userId = 1, tx_type = Deposit, tx_status = Completed, tx_amount = 100,
          transactionId = ''pesapal-1'', tx_description = ''Deposit via Pesapal'',
          tx_createdAt = 10\<rparr>,
         \<lparr>tx_userId = 1, tx_type = Deposit, tx_status = Completed, tx_amount = 50,
          transactionId = ''pesapal-2'', tx_description = ''Deposit via Pesapal'',
          tx_createdAt = 20\<rparr>,
         \<lparr>tx_userId = 1, tx_type = PrizeWon, tx_status = Completed, tx_amount = 100,
          transactionId = ''win_k3j9x0q1z'',
          tx_description = ''Won prize from Lucky Wheel (Position: 1)'',
          tx_createdAt = 30\<rparr>],
      tickets = [], timers = []\<rparr>"
  by (simp add: won_state_def demo_funded_eq post_games_spin_def save_transaction_def Let_def
        demo_catalog_def demo_game_def one_half_def round53_def fl_small
        show_int_def show_nat.simps digit_def fun_eq_iff)




text \<open>
  C10. The spin handler looks at neither the kind nor the active flag of the game: its
  response is the same whatever they are. On any game whose prize list is empty, index 0
  is read from an empty array, the entry is absent, and the request ends in the
  handler's \<^verbatim>\<open>catch\<close> with \<^verbatim>\<open>Internal server error\<close>; the state, balances and
  transactions included, is what it was.
\<close>

theorem post_games_spin_empty_prizes:
  assumes "users s uid = Some usr" and "games s gameId = Some gm"
  shows "fst (post_games_spin (s\<lparr>games := (games s)(gameId \<mapsto> gm\<lparr>g_type := kind, g_active := a\<rparr>)\<rparr>)
                (Some uid) gameId r rnd now)
           = fst (post_games_spin s (Some uid) gameId r rnd now)
     \<and> (prizes gm = [] \<longrightarrow>
           post_games_spin s (Some uid) gameId r rnd now = (Inl InternalServerError, s))"
  using assms by (simp add: post_games_spin_def save_transaction_def Let_def)

theorem post_games_spin_empty_prizes_witness:
  "users demo_funded 1 = Some \<lparr>balance = 150\<rparr> \<and> games demo_funded 2 = Some closed_game
   \<and> prizes closed_game = [] \<and> g_type closed_game = Draw \<and> \<not> g_active closed_game
   \<and> post_games_spin demo_funded (Some 1) 2 one_half ''k3j9x0q1z'' 30
        = (Inl InternalServerError, demo_funded)
   \<and> fst (post_games_spin
             (demo_funded\<lparr>games := (games demo_funded)
                (2 \<mapsto> closed_game\<lparr>g_type := Wheel, g_active := True\<rparr>)\<rparr>)
             (Some 1) 2 one_half ''k3j9x0q1z'' 30)
        = Inl InternalServerError"
  using post_games_spin_empty_prizes
          [where s = demo_funded and uid = 1 and usr = "\<lparr>balance = 150\<rparr>" and gameId = 2
             and gm = closed_game and kind = Wheel and a = True and r = one_half
             and rnd = "''k3j9x0q1z''" and now = 30]
  by (simp add: demo_funded_eq demo_catalog_def closed_game_def)

section \<open>Balances never go below zero\<close>

text \<open>
  C2, as the code has it. In every state reached from freshly registered accounts by
  deposits, withdrawal requests, settlements, ticket purchases and spins, in any order
  and with any arguments except that no deposit carries a negative amount, every user's
  balance is at least 0.
\<close>

theorem balance_nonneg_reachable:
  assumes "list_all deposit_nonneg evs"
    and "users (run (initial_state registered catalog) evs) uid = Some u"
  shows "0 \<le> balance u"
  using balances_nonneg_run[OF initial_invariants(1,3) assms(1)] assms(2)
  by (simp add: balances_nonneg_def)

theorem balance_nonneg_reachable_witness:
  "list_all deposit_nonneg settled_run
   \<and> users (run (initial_state [1] demo_catalog) settled_run) 1 = Some \<lparr>balance = 0\<rparr>
   \<and> 0 \<le> balance \<lparr>balance = 0\<rparr>"
  using balance_nonneg_reachable[of settled_run "[1]" demo_catalog 1 "\<lparr>balance = 0\<rparr>"]
  by (simp add: settled_run_def eval_defs)

text \<open>
  C2 as stated fails: the deposit handler adds the amount of the request body to the
  balance without looking at its sign, so one deposit of -50 on a fresh account leaves
  the balance at -50.
\<close>

theorem negative_deposit_counterexample:
  "users (run (initial_state [1] demo_catalog) [EDeposit (Some 1) (- 50) ''pesapal-1'' 10]) 1
     = Some \<lparr>balance = - 50\<rparr>"
  by (simp add: eval_defs)

section \<open>Balance and ledger\<close>

text \<open>
  C4, as the code has it. Requests are served one at a time, with settlements between
  them, and their amounts and quantities are integers. In every state reached from
  freshly registered accounts by a sequence of undisturbed steps, every user's balance is
  the sum of the user's completed credits minus the sum of the user's completed debits.
  A step is undisturbed when the balance it writes is a finite double without rounding,
  when the record of a deposit of an amount other than 0, of a purchase of a cost other
  than 0 and of a winning spin is accepted by the store, and when a settlement of an
  amount other than 0 finds the stored balance of its user equal to the balance that its
  request read.
\<close>

theorem ledger_balance_undisturbed:
  assumes "undisturbed (initial_state registered catalog) evs"
    and "users (run (initial_state registered catalog) evs) uid = Some u"
  shows "balance u = credits (run (initial_state registered catalog) evs) uid
                     - debits (run (initial_state registered catalog) evs) uid"
  using ledger_ok_run[OF initial_invariants(4,3) assms(1)] assms(2)
  by (simp add: ledger_ok_def ledger_net)

theorem ledger_balance_undisturbed_witness:
  "undisturbed (initial_state [1] demo_catalog) settled_run
   \<and> users (run (initial_state [1] demo_catalog) settled_run) 1 = Some \<lparr>balance = 0\<rparr>
   \<and> credits (run (initial_state [1] demo_catalog) settled_run) 1 = 100
   \<and> debits (run (initial_state [1] demo_catalog) settled_run) 1 = 100"
  using ledger_balance_undisturbed[of "[1]" demo_catalog settled_run 1 "\<lparr>balance = 0\<rparr>"]
  by (simp add: settled_run_def eval_defs credits_def debits_def)

text \<open>
  C4 as stated fails on two runs. In the first, a deposit of 50 arrives between a
  withdrawal request of 100 and its settlement: the settlement writes the balance its
  request read minus 100, the balance is 0, and the ledger says 150 - 100. In the
  second, a deposit repeats the transaction identifier of an earlier one: the balance
  is credited, the save of the record is rejected, the balance is 150 and the ledger
  says 100.
\<close>

theorem ledger_balance_counterexample:
  "users (run (initial_state [1] demo_catalog) stale_run) 1 = Some \<lparr>balance = 0\<rparr>
   \<and> credits (run (initial_state [1] demo_catalog) stale_run) 1 = 150
   \<and> debits (run (initial_state [1] demo_catalog) stale_run) 1 = 100
   \<and> users (run (initial_state [1] demo_catalog) repeated_deposit_run) 1
        = Some \<lparr>balance = 150\<rparr>
   \<and> credits (run (initial_state [1] demo_catalog) repeated_deposit_run) 1 = 100
   \<and> debits (run (initial_state [1] demo_catalog) repeated_deposit_run) 1 = 0"
  by (simp add: stale_run_def repeated_deposit_run_def eval_defs credits_def debits_def)

section \<open>Settling a withdrawal\<close>





section \<open>Transaction identifiers\<close>

lemma bought_state_eq:
  "bought_state =
     \<lparr>users = [1 \<mapsto> \<lparr>balance = 120\<rparr>], games = demo_catalog,
      transactions =
        [\<lparr>tx_userId = 1, tx_type = Deposit, tx_status = Completed, tx_amount = 100,
          transactionId = ''pesapal-1'', tx_description = ''Deposit via Pesapal'',
          tx_createdAt = 10\<rparr>,
         \<lparr>tx_userId = 1, tx_type = Deposit, tx_status = Completed, tx_amount = 50,
          transactionId = ''pesapal-2'', tx_description = ''Deposit via Pesapal'',
          tx_createdAt = 20\<rparr>,
         \<lparr>tx_userId = 1, tx_type = GamePurchase, tx_status = Completed, tx_amount = 30,
          transactionId = ''tick_p0o9i8u7y'',
          tx_description = ''Purchased 1 ticket(s) for Lucky Wheel'', tx_createdAt = 30\<rparr>],
      tickets =
        [\<lparr>tk_userId = 1, tk_gameId = 1, ticketCode = ''TA1B2C3D4E'', purchaseDate = 30,
          drawDate = 604800030, tk_status = TicketActive, prizeWon = 0\<rparr>],
      timers = []\<rparr>"
  by (simp add: bought_state_def demo_funded_eq post_tickets_purchase_def save_transaction_def
        save_ticket_def Let_def demo_catalog_def demo_game_def demo_codes_def fl_small
        mint_tickets.simps show_int_def show_nat.simps digit_def fun_eq_iff)

lemma request_appends:
  assumes "is_request e"
  shows "take (length (transactions s)) (transactions (step s e)) = transactions s"
proof (cases e)
  case (EPurchase session gameId q rnd codes now dd)
  then show ?thesis
    by (auto simp: handler_defs split: option.splits prod.splits)
next
  case (ESettle k)
  with assms show ?thesis
    by simp
qed (auto simp: handler_defs split: option.splits)

text \<open>
  C7, as the code has it. In every reachable state the transaction identifiers of the
  log are pairwise distinct. No request changes a record that is already in the log. An
  identifier that is already in the log is never replaced by a new one and its save is
  never retried: a deposit that carries it, and a withdrawal request, a purchase and a
  winning spin that generate it, are answered with \<^verbatim>\<open>Internal server error\<close> and leave
  the log as it was; the balance that the deposit, the purchase or the spin had already
  written stays written.
\<close>

theorem transaction_ids_unique_no_retry:
  "distinct (map transactionId (transactions (run (initial_state registered catalog) evs)))
   \<and> (is_request e \<longrightarrow>
         take (length (transactions s)) (transactions (step s e)) = transactions s)
   \<and> (users s uid = Some usr \<longrightarrow>
        (tid \<in> set (map transactionId (transactions s)) \<longrightarrow>
           post_deposit s (Some uid) amount tid now =
             (Inl InternalServerError,
              s\<lparr>users := (users s)(uid \<mapsto> usr\<lparr>balance := fl (balance usr + amount)\<rparr>)\<rparr>))
      \<and> (\<not> balance usr < amount
           \<and> ''wd_'' @ rnd \<in> set (map transactionId (transactions s)) \<longrightarrow>
           post_withdraw s (Some uid) amount phone rnd now = (Inl InternalServerError, s))
      \<and> (games s gameId = Some gm \<and> \<not> balance usr < fl (price gm * quantity)
           \<and> ''tick_'' @ rnd \<in> set (map transactionId (transactions s)) \<longrightarrow>
           post_tickets_purchase s (Some uid) gameId (Some quantity) rnd codes now dd =
             (Inl InternalServerError,
              s\<lparr>users := (users s)(uid \<mapsto>
                   usr\<lparr>balance := fl (balance usr - fl (price gm * quantity))\<rparr>)\<rparr>))
      \<and> (games s gameId = Some gm
           \<and> random_index r (length (prizes gm)) < length (prizes gm)
           \<and> 0 < p_amount (prizes gm ! random_index r (length (prizes gm)))
           \<and> ''win_'' @ rnd \<in> set (map transactionId (transactions s)) \<longrightarrow>
           post_games_spin s (Some uid) gameId r rnd now =
             (Inl InternalServerError,
              s\<lparr>users := (users s)(uid \<mapsto> usr\<lparr>balance :=
                   fl (balance usr
                        + p_amount (prizes gm ! random_index r (length (prizes gm))))\<rparr>)\<rparr>)))"
proof -
  have "distinct (map transactionId (transactions (run (initial_state registered catalog) evs)))"
    using unique_ids_run[OF initial_invariants(2)] by (simp add: unique_ids_def)
  moreover have "is_request e \<longrightarrow>
         take (length (transactions s)) (transactions (step s e)) = transactions s"
    using request_appends[of e s] by simp
  ultimately show ?thesis
    by (simp add: handler_defs)
qed

theorem transaction_ids_unique_no_retry_witness:
  "distinct (map transactionId (transactions (run (initial_state [1] demo_catalog) stale_run)))
   \<and> map transactionId (transactions (run (initial_state [1] demo_catalog) stale_run))
        = [''pesapal-1'', ''wd_k3j9x0q1z'', ''pesapal-2'']
   \<and> take 2 (transactions (step pending_state (EDeposit (Some 1) 5 ''pesapal-9'' 40)))
        = transactions pending_state
   \<and> post_deposit pending_state (Some 1) 5 ''pesapal-1'' 40
        = (Inl InternalServerError, pending_state\<lparr>users := [1 \<mapsto> \<lparr>balance = 105\<rparr>]\<rparr>)
   \<and> post_withdraw pending_state (Some 1) 50 ''256700'' ''k3j9x0q1z'' 40
        = (Inl InternalServerError, pending_state)
   \<and> fst (post_tickets_purchase bought_state (Some 1) 1 (Some 2) ''p0o9i8u7y'' demo_codes 40
            (Some 604800040)) = Inl InternalServerError
   \<and> fst (post_games_spin won_state (Some 1) 1 one_half ''k3j9x0q1z'' 40)
        = Inl InternalServerError"
proof -
  note a = transaction_ids_unique_no_retry
      [where registered = "[1]" and catalog = demo_catalog and evs = stale_run
         and e = "EDeposit (Some 1) 5 ''pesapal-9'' 40" and s = pending_state and uid = 1
         and usr = "\<lparr>balance = 100\<rparr>" and tid = "''pesapal-1''" and amount = 5 and now = 40
         and rnd = "''k3j9x0q1z''" and phone = "''256700''" and gameId = 1 and gm = demo_game
         and quantity = 2 and codes = demo_codes and dd = "Some 604800040" and r = one_half]
  have d: "distinct (map transactionId
             (transactions (run (initial_state [1] demo_catalog) stale_run)))"
    using a by (rule conjunct1)
  have "is_request (EDeposit (Some 1) 5 ''pesapal-9'' 40) \<longrightarrow>
          take (length (transactions pending_state))
            (transactions (step pending_state (EDeposit (Some 1) 5 ''pesapal-9'' 40)))
          = transactions pending_state"
    using a by (rule conjunct2[THEN conjunct1])
  moreover have len: "length (transactions pending_state) = 2"
    by (simp add: pending_state_def)
  ultimately have t:
    "take 2 (transactions (step pending_state (EDeposit (Some 1) 5 ''pesapal-9'' 40)))
        = transactions pending_state"
    by simp
  have rest: "map transactionId (transactions (run (initial_state [1] demo_catalog) stale_run))
        = [''pesapal-1'', ''wd_k3j9x0q1z'', ''pesapal-2'']
   \<and> post_deposit pending_state (Some 1) 5 ''pesapal-1'' 40
        = (Inl InternalServerError, pending_state\<lparr>users := [1 \<mapsto> \<lparr>balance = 105\<rparr>]\<rparr>)
   \<and> post_withdraw pending_state (Some 1) 50 ''256700'' ''k3j9x0q1z'' 40
        = (Inl InternalServerError, pending_state)
   \<and> fst (post_tickets_purchase bought_state (Some 1) 1 (Some 2) ''p0o9i8u7y'' demo_codes 40
            (Some 604800040)) = Inl InternalServerError
   \<and> fst (post_games_spin won_state (Some 1) 1 one_half ''k3j9x0q1z'' 40)
        = Inl InternalServerError"
    by (simp add: stale_run_def eval_defs pending_state_def bought_state_eq won_state_eq
          one_half_def round53_def)
  from d t rest show ?thesis
    by blast
qed

text \<open>
  C7 as stated fails. The log holds \<^verbatim>\<open>wd_k3j9x0q1z\<close>; a second withdrawal request
  that draws the same suffix is not given a new identifier: it is answered with
  \<^verbatim>\<open>Internal server error\<close> and no record of it is written.
\<close>

theorem transaction_id_retry_counterexample:
  "''wd_k3j9x0q1z'' \<in> set (map transactionId (transactions pending_state))
   \<and> post_withdraw pending_state (Some 1) 50 ''256700'' ''k3j9x0q1z'' 40
        = (Inl InternalServerError, pending_state)"
  by (simp add: pending_state_def post_withdraw_def save_transaction_def)

section \<open>Purchasing tickets\<close>

lemma mint_tickets_all_saved:
  assumes "0 \<le> i"
    and "distinct (map codes [nat i..<nat quantity])"
    and "\<forall>j \<in> set [nat i..<nat quantity]. CHR ''T'' # codes j \<notin> set (map ticketCode store)"
  shows "mint_tickets store uid gid (Some d) now codes quantity i acc =
     (Some (acc @ map (mk_ticket uid gid d now codes) [nat i..<nat quantity]),
      store @ map (mk_ticket uid gid d now codes) [nat i..<nat quantity])"
  using assms
proof (induction store uid gid "Some d" now codes quantity i acc rule: mint_tickets.induct)
  case (1 store uid gid now codes quantity i acc)
  show ?case
  proof (cases "i < quantity")
    case False
    then have "[nat i..<nat quantity] = []" using "1.prems" by simp
    with False show ?thesis by (subst mint_tickets.simps) simp
  next
    case True
    let ?t = "mk_ticket uid gid d now codes (nat i)"
    have range: "[nat i..<nat quantity] = nat i # [nat (i + 1)..<nat quantity]"
      using True "1.prems"(1) by (simp add: upt_conv_Cons nat_add_distrib)
    have fresh: "ticketCode ?t \<notin> set (map ticketCode store)"
      using "1.prems"(3) unfolding range by (simp add: mk_ticket_def)
    then have saved: "save_ticket store ?t = Some (store @ [?t])"
      by (simp add: save_ticket_def mk_ticket_def)
    have dist': "distinct (map codes [nat (i + 1)..<nat quantity])"
      using "1.prems"(2) unfolding range by simp
    have fresh': "\<forall>j \<in> set [nat (i + 1)..<nat quantity].
                    CHR ''T'' # codes j \<notin> set (map ticketCode (store @ [?t]))"
    proof
      fix j
      assume j: "j \<in> set [nat (i + 1)..<nat quantity]"
      have "codes (nat i) \<notin> set (map codes [nat (i + 1)..<nat quantity])"
        using "1.prems"(2) unfolding range by simp
      with j have "codes j \<noteq> codes (nat i)"
        by (metis imageI list.set_map)
      moreover have "CHR ''T'' # codes j \<notin> set (map ticketCode store)"
        using "1.prems"(3) j unfolding range by simp
      ultimately show "CHR ''T'' # codes j \<notin> set (map ticketCode (store @ [?t]))"
        by (simp add: mk_ticket_def)
    qed
    have "mint_tickets (store @ [?t]) uid gid (Some d) now codes quantity (i + 1) (acc @ [?t]) =
       (Some ((acc @ [?t]) @ map (mk_ticket uid gid d now codes) [nat (i + 1)..<nat quantity]),
        (store @ [?t]) @ map (mk_ticket uid gid d now codes) [nat (i + 1)..<nat quantity])"
      using "1.hyps"[OF True refl _ saved[unfolded mk_ticket_def]] "1.prems"(1) dist' fresh'
      by (simp add: mk_ticket_def)
    then show ?thesis
      using True saved unfolding range
      by (subst mint_tickets.simps) (simp add: mk_ticket_def Let_def)
  qed
qed

lemma mint_tickets_appends:
  "mint_tickets store uid gid dd now codes quantity i acc = (res, store') \<Longrightarrow>
     \<exists>new. store' = store @ new
       \<and> (case res of Some tks \<Rightarrow> tks = acc @ new \<and> int (length new) = max 0 (quantity - i)
                     | None \<Rightarrow> int (length new) < quantity - i)"
proof (induction store uid gid dd now codes quantity i acc rule: mint_tickets.induct)
  case (1 store uid gid dd now codes quantity i acc)
  show ?case
  proof (cases "i < quantity")
    case False
    show ?thesis
      using "1.prems" False by (subst (asm) mint_tickets.simps) auto
  next
    case True
    show ?thesis
    proof (cases dd)
      case None
      show ?thesis
        using "1.prems" True None by (subst (asm) mint_tickets.simps) auto
    next
      case (Some d)
      let ?t = "\<lparr>tk_userId = uid, tk_gameId = gid, ticketCode = CHR ''T'' # codes (nat i),
                 purchaseDate = now, drawDate = d, tk_status = TicketActive, prizeWon = 0\<rparr>"
      show ?thesis
      proof (cases "save_ticket store ?t")
        case None
        show ?thesis
          using "1.prems" True Some None
          by (subst (asm) mint_tickets.simps) (auto simp: Let_def)
      next
        case saved: (Some st)
        then have st: "st = store @ [?t]" by (simp add: save_ticket_def split: if_splits)
        have "mint_tickets st uid gid dd now codes quantity (i + 1) (acc @ [?t]) = (res, store')"
          using "1.prems" True Some saved
          by (subst (asm) mint_tickets.simps) (simp add: Let_def)
        from "1.IH"[OF True Some refl saved this] obtain new where
          new: "store' = st @ new"
            "(case res of Some tks \<Rightarrow> tks = (acc @ [?t]) @ new \<and> int (length new) = max 0 (quantity - (i + 1))
               | None \<Rightarrow> int (length new) < quantity - (i + 1))"
          by blast
        show ?thesis
        proof (intro exI[of _ "?t # new"] conjI)
          show "store' = store @ ?t # new" using new(1) st by simp
          show "case res of Some tks \<Rightarrow> tks = acc @ ?t # new \<and> int (length (?t # new)) = max 0 (quantity - i)
               | None \<Rightarrow> int (length (?t # new)) < quantity - i"
            using new(2) True by (cases res) auto
        qed
      qed
    qed
  qed
qed

lemma demo_funded_user: "users demo_funded 1 = Some \<lparr>balance = 150\<rparr>"
  by (simp add: demo_funded_eq)

lemma demo_funded_game: "games demo_funded 1 = Some demo_game"
  by (simp add: demo_funded_eq demo_catalog_def)

lemma bought_state_user: "users bought_state 1 = Some \<lparr>balance = 120\<rparr>"
  by (simp add: bought_state_eq)

lemma bought_state_game: "games bought_state 1 = Some demo_game"
  by (simp add: bought_state_eq demo_catalog_def)

lemmas purchase_eval = post_tickets_purchase_def save_transaction_def
        save_ticket_def Let_def demo_catalog_def demo_game_def demo_codes_def fl_small
        mint_tickets.simps show_int_def show_nat.simps digit_def fun_eq_iff

lemma purchase_two:
  "post_tickets_purchase demo_funded (Some 1) 1 (Some 2) ''p0o9i8u7y'' demo_codes 30
      (Some 604800030) =
   (Inr ([\<lparr>tk_userId = 1, tk_gameId = 1, ticketCode = ''TA1B2C3D4E'', purchaseDate = 30,
              drawDate = 604800030, tk_status = TicketActive, prizeWon = 0\<rparr>,
             \<lparr>tk_userId = 1, tk_gameId = 1, ticketCode = ''TF5G6H7I8J'', purchaseDate = 30,
              drawDate = 604800030, tk_status = TicketActive, prizeWon = 0\<rparr>], 90),
    demo_funded\<lparr>users := (users demo_funded)(1 \<mapsto> \<lparr>balance = 90\<rparr>),
       transactions := transactions demo_funded @
         [\<lparr>tx_userId = 1, tx_type = GamePurchase, tx_status = Completed, tx_amount = 60,
           transactionId = ''tick_p0o9i8u7y'',
           tx_description = ''Purchased 2 ticket(s) for Lucky Wheel'', tx_createdAt = 30\<rparr>],
       tickets :=
         [\<lparr>tk_userId = 1, tk_gameId = 1, ticketCode = ''TA1B2C3D4E'', purchaseDate = 30,
              drawDate = 604800030, tk_status = TicketActive, prizeWon = 0\<rparr>,
          \<lparr>tk_userId = 1, tk_gameId = 1, ticketCode = ''TF5G6H7I8J'', purchaseDate = 30,
              drawDate = 604800030, tk_status = TicketActive, prizeWon = 0\<rparr>]\<rparr>)"
  by (simp add: demo_funded_eq purchase_eval)

lemma purchase_six:
  "post_tickets_purchase demo_funded (Some 1) 1 (Some 6) ''p0o9i8u7y'' demo_codes 30
      (Some 604800030) =
     (Inl InsufficientBalance, demo_funded)"
  by (simp add: demo_funded_eq purchase_eval)

lemma purchase_repeated_code:
  "post_tickets_purchase bought_state (Some 1) 1 (Some 2) ''q1w2e3r4t''
      (\<lambda>j. demo_codes (j + 2)) 40 (Some 604800040) =
     (Inl InternalServerError,
      bought_state\<lparr>users := (users bought_state)(1 \<mapsto> \<lparr>balance = 60\<rparr>),
        transactions := transactions bought_state @
          [\<lparr>tx_userId = 1, tx_type = GamePurchase, tx_status = Completed, tx_amount = 60,
            transactionId = ''tick_q1w2e3r4t'',
            tx_description = ''Purchased 2 ticket(s) for Lucky Wheel'', tx_createdAt = 40\<rparr>],
        tickets := tickets bought_state @
          [\<lparr>tk_userId = 1, tk_gameId = 1, ticketCode = ''TK9L0M1N2O'', purchaseDate = 40,
            drawDate = 604800040, tk_status = TicketActive, prizeWon = 0\<rparr>]\<rparr>)"
  by (simp add: bought_state_eq purchase_eval)

text \<open>
  C3, as the code has it. Requests are served one at a time; the quantity is an integer.
  For an existing user and game and a purchase of \<open>quantity\<close> tickets, the cost being the
  double product of price and quantity: when the balance is below the cost the request
  is answered with \<^verbatim>\<open>Insufficient balance\<close> and the state is unchanged; when the balance
  covers the cost, quantity is at least 0, the store accepts the transaction identifier,
  the ticket codes drawn are new and pairwise different, and the draw date is a valid
  date (it is not looked at when quantity is 0), the request succeeds; every successful
  request with quantity at least 0 has written the double difference of balance and cost
  as the balance, which is the balance minus price times quantity when neither the
  product nor the difference is rounded, and has appended exactly quantity tickets; and
  a request that ends with \<^verbatim>\<open>Internal server error\<close> has kept the debit, with no ticket
  saved when quantity is at most 0 and fewer than quantity tickets saved otherwise:
  there is no compensating credit.
\<close>

theorem purchase_outcomes:
  assumes "users s uid = Some usr" and "games s gameId = Some gm"
    and "post_tickets_purchase s (Some uid) gameId (Some quantity) rnd codes now dd = (out, s')"
  shows "(balance usr < fl (price gm * quantity) \<longrightarrow> out = Inl InsufficientBalance \<and> s' = s)
     \<and> (\<not> balance usr < fl (price gm * quantity) \<and> 0 \<le> quantity
          \<and> ''tick_'' @ rnd \<notin> set (map transactionId (transactions s))
          \<and> (quantity = 0 \<or> dd = Some d)
          \<and> distinct (map codes [0..<nat quantity])
          \<and> (\<forall>j \<in> set [0..<nat quantity].
                CHR ''T'' # codes j \<notin> set (map ticketCode (tickets s)))
        \<longrightarrow> out = Inr (map (mk_ticket uid gameId d now codes) [0..<nat quantity],
                        fl (balance usr - fl (price gm * quantity))))
     \<and> (0 \<le> quantity \<longrightarrow> (\<forall>tks b. out = Inr (tks, b) \<longrightarrow>
            b = fl (balance usr - fl (price gm * quantity))
          \<and> (exact (price gm * quantity) \<and> exact (balance usr - price gm * quantity)
               \<longrightarrow> b = balance usr - price gm * quantity)
          \<and> users s' = (users s)(uid \<mapsto> usr\<lparr>balance := b\<rparr>)
          \<and> tickets s' = tickets s @ tks \<and> int (length tks) = quantity))
     \<and> (out = Inl InternalServerError \<longrightarrow>
            users s' = (users s)(uid \<mapsto>
               usr\<lparr>balance := fl (balance usr - fl (price gm * quantity))\<rparr>)
          \<and> (\<exists>saved. tickets s' = tickets s @ saved
                \<and> (if quantity \<le> 0 then saved = [] else int (length saved) < quantity)))"
proof -
  let ?cost = "fl (price gm * quantity)"
  let ?b = "fl (balance usr - ?cost)"
  let ?t = "\<lparr>tx_userId = uid, tx_type = GamePurchase, tx_status = Completed, tx_amount = ?cost,
             transactionId = ''tick_'' @ rnd,
             tx_description = ''Purchased '' @ show_int quantity @ '' ticket(s) for '' @ g_name gm,
             tx_createdAt = now\<rparr>"
  let ?users' = "(users s)(uid \<mapsto> usr\<lparr>balance := ?b\<rparr>)"
  have ex: "?b = balance usr - price gm * quantity"
    if "exact (price gm * quantity) \<and> exact (balance usr - price gm * quantity)"
    using that by (simp add: exact_fl)
  show ?thesis
  proof (cases "balance usr < ?cost")
    case True
    then show ?thesis
      using assms by (auto simp: post_tickets_purchase_def)
  next
    case funded: False
    show ?thesis
    proof (cases "''tick_'' @ rnd \<in> set (map transactionId (transactions s))")
      case True
      then have "out = Inl InternalServerError" and "s' = s\<lparr>users := ?users'\<rparr>"
        using assms funded by (auto simp: post_tickets_purchase_def save_transaction_def Let_def)
      then show ?thesis using funded True by auto
    next
      case fresh: False
      obtain res store where
        m: "mint_tickets (tickets s) uid gameId dd now codes quantity 0 [] = (res, store)"
        by (cases "mint_tickets (tickets s) uid gameId dd now codes quantity 0 []") auto
      from mint_tickets_appends[OF m] obtain new where new: "store = tickets s @ new"
        "case res of Some tks \<Rightarrow> tks = [] @ new \<and> int (length new) = max 0 (quantity - 0)
                   | None \<Rightarrow> int (length new) < quantity - 0"
        by blast
      have out: "out = (case res of None \<Rightarrow> Inl InternalServerError
                               | Some tks \<Rightarrow> Inr (tks, ?b))"
        and s': "s' = s\<lparr>users := ?users', transactions := transactions s @ [?t], tickets := store\<rparr>"
        using assms funded fresh m
        by (auto simp: post_tickets_purchase_def save_transaction_def Let_def split: option.splits)
      have none: "res = Some []" if "quantity = 0"
        using m that by (subst (asm) mint_tickets.simps) simp
      have all_fresh: "res = Some (map (mk_ticket uid gameId d now codes) [0..<nat quantity])"
        if "dd = Some d" "distinct (map codes [0..<nat quantity])"
           "\<forall>j \<in> set [0..<nat quantity]. CHR ''T'' # codes j \<notin> set (map ticketCode (tickets s))"
        using mint_tickets_all_saved[of 0 codes quantity "tickets s" uid gameId d now "[]"] that m
        by simp
      have ok: "0 \<le> quantity \<and> (quantity = 0 \<or> dd = Some d)
          \<and> distinct (map codes [0..<nat quantity])
          \<and> (\<forall>j \<in> set [0..<nat quantity].
                CHR ''T'' # codes j \<notin> set (map ticketCode (tickets s)))
        \<longrightarrow> res = Some (map (mk_ticket uid gameId d now codes) [0..<nat quantity])"
        using none all_fresh by auto
      show ?thesis
      proof (cases res)
        case None
        then show ?thesis using out s' new funded ok by auto
      next
        case (Some tks)
        then show ?thesis using out s' new funded ok ex by auto
      qed
    qed
  qed
qed

theorem purchase_outcomes_witness:
  "fst (post_tickets_purchase demo_funded (Some 1) 1 (Some 2) ''p0o9i8u7y'' demo_codes 30
          (Some 604800030))
     = Inr ([\<lparr>tk_userId = 1, tk_gameId = 1, ticketCode = ''TA1B2C3D4E'', purchaseDate = 30,
              drawDate = 604800030, tk_status = TicketActive, prizeWon = 0\<rparr>,
             \<lparr>tk_userId = 1, tk_gameId = 1, ticketCode = ''TF5G6H7I8J'', purchaseDate = 30,
              drawDate = 604800030, tk_status = TicketActive, prizeWon = 0\<rparr>], 90)
   \<and> users (snd (post_tickets_purchase demo_funded (Some 1) 1 (Some 2) ''p0o9i8u7y''
                    demo_codes 30 (Some 604800030))) 1
       = Some \<lparr>balance = 90\<rparr>
   \<and> length (tickets (snd (post_tickets_purchase demo_funded (Some 1) 1 (Some 2)
                    ''p0o9i8u7y'' demo_codes 30 (Some 604800030)))) = 2
   \<and> exact (30 * 2) \<and> exact (150 - 30 * 2)
   \<and> post_tickets_purchase demo_funded (Some 1) 1 (Some 6) ''p0o9i8u7y'' demo_codes 30
          (Some 604800030)
       = (Inl InsufficientBalance, demo_funded)
   \<and> fst (post_tickets_purchase bought_state (Some 1) 1 (Some 2) ''q1w2e3r4t''
            (\<lambda>j. demo_codes (j + 2)) 40 (Some 604800040))
       = Inl InternalServerError
   \<and> users (snd (post_tickets_purchase bought_state (Some 1) 1 (Some 2) ''q1w2e3r4t''
                    (\<lambda>j. demo_codes (j + 2)) 40 (Some 604800040))) 1
       = Some \<lparr>balance = 60\<rparr>
   \<and> length (tickets (snd (post_tickets_purchase bought_state (Some 1) 1 (Some 2)
                    ''q1w2e3r4t'' (\<lambda>j. demo_codes (j + 2)) 40 (Some 604800040)))) = 2"
  using purchase_outcomes[OF demo_funded_user demo_funded_game purchase_two, of 604800030]
    purchase_outcomes[OF demo_funded_user demo_funded_game purchase_six, of 604800030]
    purchase_outcomes[OF bought_state_user bought_state_game purchase_repeated_code, of 604800040]
  unfolding purchase_two purchase_six purchase_repeated_code
  by (simp add: demo_game_def exact_small fl_small bought_state_eq)

text \<open>
  C3 as stated fails. After one purchase (balance 120, one ticket), a purchase of two
  tickets whose transaction identifier repeats the earlier one ends with
  \<^verbatim>\<open>Internal server error\<close>, the balance at 60 and no new ticket; and a purchase of
  two tickets whose second ticket code repeats the earlier ticket's code ends with
  \<^verbatim>\<open>Internal server error\<close>, the balance at 60 and one new ticket. In both the
  balance is debited, fewer than two tickets exist, and nothing is credited back.
\<close>

theorem purchase_atomicity_counterexample:
  "users bought_state 1 = Some \<lparr>balance = 120\<rparr>
   \<and> map ticketCode (tickets bought_state) = [''TA1B2C3D4E'']
   \<and> fst (post_tickets_purchase bought_state (Some 1) 1 (Some 2) ''p0o9i8u7y''
            (\<lambda>j. demo_codes (j + 1)) 40 (Some 604800040))
        = Inl InternalServerError
   \<and> users (snd (post_tickets_purchase bought_state (Some 1) 1 (Some 2) ''p0o9i8u7y''
                    (\<lambda>j. demo_codes (j + 1)) 40 (Some 604800040))) 1
        = Some \<lparr>balance = 60\<rparr>
   \<and> tickets (snd (post_tickets_purchase bought_state (Some 1) 1 (Some 2) ''p0o9i8u7y''
                    (\<lambda>j. demo_codes (j + 1)) 40 (Some 604800040)))
        = tickets bought_state
   \<and> fst (post_tickets_purchase bought_state (Some 1) 1 (Some 2) ''q1w2e3r4t''
            (\<lambda>j. demo_codes (j + 2)) 40 (Some 604800040))
        = Inl InternalServerError
   \<and> users (snd (post_tickets_purchase bought_state (Some 1) 1 (Some 2) ''q1w2e3r4t''
                    (\<lambda>j. demo_codes (j + 2)) 40 (Some 604800040))) 1
        = Some \<lparr>balance = 60\<rparr>
   \<and> map ticketCode (tickets (snd (post_tickets_purchase bought_state (Some 1) 1 (Some 2)
                    ''q1w2e3r4t'' (\<lambda>j. demo_codes (j + 2)) 40 (Some 604800040))))
        = [''TA1B2C3D4E'', ''TK9L0M1N2O'']"
  by (simp add: bought_state_eq post_tickets_purchase_def save_transaction_def
        save_ticket_def Let_def demo_catalog_def demo_game_def demo_codes_def fl_small
        mint_tickets.simps)

text \<open>
  C6, as the code has it. The purchase handler checks neither the quantity nor the
  active flag of the game: its response, the balances, the transactions and the tickets
  are the same whatever the flag is; with requests served one at a time, a purchase of 0
  tickets by a user whose balance is not negative, with an identifier that the store
  accepts, succeeds with no ticket, the balances unchanged and a \<open>GamePurchase\<close>
  transaction of amount 0. A request answered with \<^verbatim>\<open>Authentication required\<close>,
  \<^verbatim>\<open>User not found\<close>, \<^verbatim>\<open>Game not found\<close> or \<^verbatim>\<open>Insufficient balance\<close> has written
  nothing: no balance, no transaction and no ticket.
\<close>

theorem purchase_checks_neither_quantity_nor_active:
  assumes "users s uid = Some usr" and "games s gameId = Some gm"
  shows "fst (post_tickets_purchase (s\<lparr>games := (games s)(gameId \<mapsto> gm\<lparr>g_active := a\<rparr>)\<rparr>)
                session gameId q rnd codes now dd)
          = fst (post_tickets_purchase s session gameId q rnd codes now dd)
     \<and> users (snd (post_tickets_purchase (s\<lparr>games := (games s)(gameId \<mapsto> gm\<lparr>g_active := a\<rparr>)\<rparr>)
                session gameId q rnd codes now dd))
          = users (snd (post_tickets_purchase s session gameId q rnd codes now dd))
     \<and> transactions (snd (post_tickets_purchase
                (s\<lparr>games := (games s)(gameId \<mapsto> gm\<lparr>g_active := a\<rparr>)\<rparr>)
                session gameId q rnd codes now dd))
          = transactions (snd (post_tickets_purchase s session gameId q rnd codes now dd))
     \<and> tickets (snd (post_tickets_purchase (s\<lparr>games := (games s)(gameId \<mapsto> gm\<lparr>g_active := a\<rparr>)\<rparr>)
                session gameId q rnd codes now dd))
          = tickets (snd (post_tickets_purchase s session gameId q rnd codes now dd))
     \<and> (0 \<le> balance usr \<and> exact (balance usr)
          \<and> ''tick_'' @ rnd \<notin> set (map transactionId (transactions s)) \<longrightarrow>
          fst (post_tickets_purchase s (Some uid) gameId (Some 0) rnd codes now dd)
            = Inr ([], balance usr)
        \<and> users (snd (post_tickets_purchase s (Some uid) gameId (Some 0) rnd codes now dd))
            = users s
        \<and> tickets (snd (post_tickets_purchase s (Some uid) gameId (Some 0) rnd codes now dd))
            = tickets s
        \<and> transactions (snd (post_tickets_purchase s (Some uid) gameId (Some 0) rnd codes now dd)) =
            transactions s @
              [\<lparr>tx_userId = uid, tx_type = GamePurchase, tx_status = Completed, tx_amount = 0,
                transactionId = ''tick_'' @ rnd,
                tx_description = ''Purchased 0 ticket(s) for '' @ g_name gm,
                tx_createdAt = now\<rparr>])
     \<and> (fst (post_tickets_purchase s session gameId q rnd codes now dd)
            \<in> {Inl AuthenticationRequired, Inl UserNotFound, Inl GameNotFound,
                Inl InsufficientBalance}
          \<longrightarrow> snd (post_tickets_purchase s session gameId q rnd codes now dd) = s)"
proof -
  have active: "post_tickets_purchase (s\<lparr>games := (games s)(gameId \<mapsto> gm\<lparr>g_active := a\<rparr>)\<rparr>)
                  session gameId q rnd codes now dd
      = (fst (post_tickets_purchase s session gameId q rnd codes now dd),
         (snd (post_tickets_purchase s session gameId q rnd codes now dd))
            \<lparr>games := (games s)(gameId \<mapsto> gm\<lparr>g_active := a\<rparr>)\<rparr>)"
    using assms(2)
    by (simp add: post_tickets_purchase_def Let_def split: option.split prod.split)
  have zero: "post_tickets_purchase s (Some uid) gameId (Some 0) rnd codes now dd =
       (Inr ([], balance usr),
        s\<lparr>users := (users s)(uid \<mapsto> usr),
          transactions := transactions s @
              [\<lparr>tx_userId = uid, tx_type = GamePurchase, tx_status = Completed, tx_amount = 0,
                transactionId = ''tick_'' @ rnd,
                tx_description = ''Purchased 0 ticket(s) for '' @ g_name gm,
                tx_createdAt = now\<rparr>],
          tickets := tickets s\<rparr>)"
    if "0 \<le> balance usr" "exact (balance usr)"
       "''tick_'' @ rnd \<notin> set (map transactionId (transactions s))"
    using assms that
    by (simp add: post_tickets_purchase_def Let_def save_transaction_def exact_fl
          mint_tickets.simps[of _ _ _ _ _ _ 0 0]
          show_int_def show_nat.simps[of 0] digit_def)
  have same: "(users s)(uid \<mapsto> usr) = users s"
    using assms(1) by (simp add: fun_upd_idem)
  have rejected: "snd (post_tickets_purchase s session gameId q rnd codes now dd) = s"
    if "fst (post_tickets_purchase s session gameId q rnd codes now dd)
            \<in> {Inl AuthenticationRequired, Inl UserNotFound, Inl GameNotFound,
                Inl InsufficientBalance}"
    using that
    by (auto simp: post_tickets_purchase_def Let_def split: option.splits if_splits prod.splits)
  show ?thesis
    using zero rejected by (simp add: active same)
qed

theorem purchase_checks_neither_quantity_nor_active_witness:
  "users demo_funded 1 = Some \<lparr>balance = 150\<rparr> \<and> games demo_funded 2 = Some closed_game
   \<and> exact 150
   \<and> fst (post_tickets_purchase
            (demo_funded\<lparr>games := (games demo_funded)(2 \<mapsto> closed_game\<lparr>g_active := True\<rparr>)\<rparr>)
             (Some 1) 2 (Some 1) ''p0o9i8u7y'' demo_codes 30 (Some 604800030))
       = fst (post_tickets_purchase demo_funded (Some 1) 2 (Some 1) ''p0o9i8u7y'' demo_codes 30
                (Some 604800030))
   \<and> fst (post_tickets_purchase demo_funded (Some 1) 2 (Some 0) ''p0o9i8u7y'' demo_codes 30
            (Some 604800030)) = Inr ([], 150)
   \<and> length (transactions (snd (post_tickets_purchase demo_funded (Some 1) 2 (Some 0)
            ''p0o9i8u7y'' demo_codes 30 (Some 604800030)))) = 3
   \<and> post_tickets_purchase demo_funded (Some 1) 2 (Some 6) ''p0o9i8u7y'' demo_codes 30
        (Some 604800030)
       = (Inl InsufficientBalance, demo_funded)"
  using
    purchase_checks_neither_quantity_nor_active
      [where s = demo_funded and uid = 1 and usr = "\<lparr>balance = 150\<rparr>" and gameId = 2
         and gm = closed_game and a = True and session = "Some 1" and q = "Some 1"
         and rnd = "''p0o9i8u7y''" and codes = demo_codes and now = 30
         and dd = "Some 604800030"]
    purchase_checks_neither_quantity_nor_active
      [where s = demo_funded and uid = 1 and usr = "\<lparr>balance = 150\<rparr>" and gameId = 2
         and gm = closed_game and a = True and session = "Some 1" and q = "Some 6"
         and rnd = "''p0o9i8u7y''" and codes = demo_codes and now = 30
         and dd = "Some 604800030"]
  by (simp add: demo_funded_eq post_tickets_purchase_def save_transaction_def
        save_ticket_def Let_def demo_catalog_def closed_game_def demo_codes_def
        fl_small exact_small mint_tickets.simps)

text \<open>
  C6 as stated fails. A purchase of 0 tickets succeeds and records a transaction; a
  purchase of one ticket of a game that is not active succeeds, debits 30 and creates
  the ticket.
\<close>

theorem purchase_validation_counterexample:
  "fst (post_tickets_purchase demo_funded (Some 1) 1 (Some 0) ''p0o9i8u7y'' demo_codes 30
          (Some 604800030)) = Inr ([], 150)
   \<and> map transactionId (transactions (snd (post_tickets_purchase demo_funded (Some 1) 1
          (Some 0) ''p0o9i8u7y'' demo_codes 30 (Some 604800030))))
        = [''pesapal-1'', ''pesapal-2'', ''tick_p0o9i8u7y'']
   \<and> games demo_funded 2 = Some closed_game \<and> \<not> g_active closed_game
   \<and> fst (post_tickets_purchase demo_funded (Some 1) 2 (Some 1) ''p0o9i8u7y'' demo_codes 30
            (Some 604800030))
        = Inr ([\<lparr>tk_userId = 1, tk_gameId = 2, ticketCode = ''TA1B2C3D4E'', purchaseDate = 30,
              drawDate = 604800030, tk_status = TicketActive, prizeWon = 0\<rparr>], 120)
   \<and> users (snd (post_tickets_purchase demo_funded (Some 1) 2 (Some 1) ''p0o9i8u7y''
            demo_codes 30 (Some 604800030))) 1
        = Some \<lparr>balance = 120\<rparr>"
  by (simp add: demo_funded_eq post_tickets_purchase_def save_transaction_def
        save_ticket_def Let_def demo_catalog_def closed_game_def demo_game_def demo_codes_def
        fl_small mint_tickets.simps)

end
